theory Spec2Isabelle
  imports Complex_Main
begin

section \<open>Invoice generator: layout and pagination\<close>

text \<open>
  A shallow embedding of \<^verbatim>\<open>src/invoice_generator.py\<close>.

  Conventions of the embedding:
  \<^item> a Python \<^verbatim>\<open>str\<close> is the list of its Unicode code points (\<open>pystr\<close>), so that
    \<^verbatim>\<open>for ch in s\<close> is recursion over the list and the Japanese labels are exact;
  \<^item> a finite Python \<^verbatim>\<open>float\<close> is the rational number it denotes (\<open>rat\<close>); the
    arithmetic of the model is exact, that is, the rounding of IEEE operations and the
    values \<^verbatim>\<open>inf\<close> and \<^verbatim>\<open>nan\<close> are not modelled;
  \<^item> the collaborators that are not code of this repository are parameters, collected
    in the record \<open>env\<close>: reportlab's \<^verbatim>\<open>pdfmetrics.stringWidth\<close>, Python's
    \<^verbatim>\<open>float(str)\<close> and \<^verbatim>\<open>str(float)\<close>, the registered font name and the presence of
    the logo file;
  \<^item> the canvas is the list of the calls made on it, in order (\<open>instr\<close>).
\<close>

type_synonym pystr = "nat list"

definition ascii :: "string \<Rightarrow> pystr" where
  "ascii s = map of_char s"

record env =
  stringWidth :: "pystr \<Rightarrow> string \<Rightarrow> rat \<Rightarrow> rat"
  py_float :: "pystr \<Rightarrow> rat option"
  py_str :: "rat \<Rightarrow> pystr"
  JP_FONT_NAME :: "string option"
  logo_exists :: bool
  drawImage_ok :: bool

subsection \<open>Text wrapping\<close>

text \<open>
  \<^verbatim>\<open>wrap_lines\<close>, lines 95 to 108. The loop over the characters carries \<^verbatim>\<open>lines\<close> and
  \<^verbatim>\<open>cur\<close>; the candidate \<^verbatim>\<open>test = cur + ch\<close> is kept when its width is at most
  \<^verbatim>\<open>max_width\<close>, otherwise \<^verbatim>\<open>cur\<close> is appended to \<^verbatim>\<open>lines\<close> and \<^verbatim>\<open>cur\<close> becomes
  \<^verbatim>\<open>ch\<close>.
\<close>

fun wrap_loop :: "(pystr \<Rightarrow> rat) \<Rightarrow> rat \<Rightarrow> pystr \<Rightarrow> pystr list \<Rightarrow> pystr \<Rightarrow> pystr list \<times> pystr" where
  "wrap_loop sw max_width [] lines cur = (lines, cur)"
| "wrap_loop sw max_width (ch # s) lines cur =
     (let test = cur @ [ch] in
      if sw test \<le> max_width then wrap_loop sw max_width s lines test
      else wrap_loop sw max_width s (lines @ [cur]) [ch])"

definition wrap_lines :: "env \<Rightarrow> pystr \<Rightarrow> string \<Rightarrow> rat \<Rightarrow> rat \<Rightarrow> pystr list" where
  "wrap_lines e s font_name font_size max_width =
     (case wrap_loop (\<lambda>t. stringWidth e t font_name font_size) max_width s [] [] of
        (lines, cur) \<Rightarrow>
          (let lines' = (if cur \<noteq> [] then lines @ [cur] else lines)
           in if lines' = [] then [[]] else lines'))"

definition wrap_lines_right :: "env \<Rightarrow> pystr \<Rightarrow> string \<Rightarrow> rat \<Rightarrow> rat \<Rightarrow> pystr list" where
  "wrap_lines_right e s font_name font_size max_width = wrap_lines e s font_name font_size max_width"

text \<open>
  The invariant of the loop for widths: every completed line and the accumulator is
  either within the width or at most one character long.
\<close>

definition fits :: "(pystr \<Rightarrow> rat) \<Rightarrow> rat \<Rightarrow> pystr \<Rightarrow> bool" where
  "fits sw w l = (sw l \<le> w \<or> length l = 1)"


subsection \<open>Numbers as text\<close>

text \<open>
  Decimal digits of a natural number and of an integer (\<^verbatim>\<open>str(int)\<close>), \<^verbatim>\<open>int(float)\<close>
  (truncation towards zero), and the format specifications \<^verbatim>\<open>,.0f\<close>, \<^verbatim>\<open>,.2f\<close> and
  \<^verbatim>\<open>.0f\<close>: Python rounds the exact value of the float to the precision, ties to the
  even digit, keeps the sign of a negative value that rounds to zero, and with \<^verbatim>\<open>,\<close>
  separates the integer digits in groups of three.
\<close>

fun str_nat :: "nat \<Rightarrow> pystr" where
  "str_nat n = (if n < 10 then [48 + n] else str_nat (n div 10) @ [48 + n mod 10])"

declare str_nat.simps [simp del]

definition str_int :: "int \<Rightarrow> pystr" where
  "str_int i = (if i < 0 then 45 # str_nat (nat (- i)) else str_nat (nat i))"

definition py_int :: "rat \<Rightarrow> int" where
  "py_int q = (if 0 \<le> q then \<lfloor>q\<rfloor> else \<lceil>q\<rceil>)"

definition round_half_even :: "rat \<Rightarrow> int" where
  "round_half_even q =
     (let f = \<lfloor>q\<rfloor>; d = q - of_int f in
      if d < 1 / 2 then f else if 1 / 2 < d then f + 1 else if even f then f else f + 1)"

function group3 :: "pystr \<Rightarrow> pystr" where
  "group3 ds =
     (if length ds \<le> 3 then ds
      else group3 (take (length ds - 3) ds) @ [44] @ drop (length ds - 3) ds)"
  by pat_completeness auto
termination
  by (relation "measure length") auto

declare group3.simps [simp del]

definition fmt_f :: "bool \<Rightarrow> nat \<Rightarrow> rat \<Rightarrow> pystr" where
  "fmt_f grouping prec v =
     (let scaled = nat (round_half_even (\<bar>v\<bar> * 10 ^ prec));
          ip = str_nat (scaled div 10 ^ prec);
          fp = str_nat (scaled mod 10 ^ prec)
      in (if v < 0 then [45] else [])
         @ (if grouping then group3 ip else ip)
         @ (if prec = 0 then [] else [46] @ replicate (prec - length fp) 48 @ fp))"

subsection \<open>Geometry\<close>

text \<open>
  \<^verbatim>\<open>reportlab.lib.units.mm\<close> is 72 / 25.4 points and \<^verbatim>\<open>A4\<close> is 210 mm by 297 mm.
\<close>

definition mm :: rat where "mm = 360 / 127"
definition width :: rat where "width = 210 * mm"
definition height :: rat where "height = 297 * mm"
definition margin_x :: rat where "margin_x = 18 * mm"
definition margin_y :: rat where "margin_y = 18 * mm"
definition line_h :: rat where "line_h = 14"
definition pad_l :: rat where "pad_l = 2 * mm"
definition pad_r :: rat where "pad_r = 2 * mm"

definition col_x :: "rat list" where
  "col_x = [margin_x, margin_x + 90 * mm, margin_x + 120 * mm, margin_x + 145 * mm, width - margin_x]"

definition w_desc :: rat where "w_desc = (col_x ! 1 - col_x ! 0) - (pad_l + pad_r)"
definition w_qty :: rat where "w_qty = (col_x ! 2 - col_x ! 1) - (pad_l + pad_r)"
definition w_unit :: rat where "w_unit = (col_x ! 3 - col_x ! 2) - (pad_l + pad_r)"
definition w_sub :: rat where "w_sub = (col_x ! 4 - col_x ! 3) - (pad_l + pad_r)"

subsection \<open>The canvas and the invoice data\<close>

datatype instr =
    SetFont string rat
  | DrawString rat rat pystr
  | DrawRightString rat rat pystr
  | Line rat rat rat rat
  | DrawImage rat rat rat rat
  | ShowPage
  | Save

datatype error = ValueError

text \<open>
  An item is the tuple the two routes build, \<^verbatim>\<open>(desc, qty, unit, taxv)\<close>, or the tuple
  of three that \<^verbatim>\<open>generate_invoice_pdf\<close> also accepts; \<^verbatim>\<open>taxv\<close> is \<^verbatim>\<open>None\<close>, the empty
  string or a number.
\<close>

datatype taxv = TaxNone | TaxEmpty | TaxNum rat

datatype item = Item3 pystr rat rat | Item4 pystr rat rat taxv

text \<open>
  The dictionary \<^verbatim>\<open>data\<close>: a field is \<open>None\<close> when the key is absent. The values are
  the strings the two routes store; the field of the key \<^verbatim>\<open>k\<close> is \<open>data_k\<close>.
\<close>

record invoice_data =
  data_title :: "pystr option"
  data_seller_name :: "pystr option"
  data_seller_address :: "pystr option"
  data_seller_email :: "pystr option"
  data_seller_phone :: "pystr option"
  data_buyer_name :: "pystr option"
  data_buyer_address :: "pystr option"
  data_buyer_email :: "pystr option"
  data_buyer_phone :: "pystr option"
  data_invoice_no :: "pystr option"
  data_date :: "pystr option"
  data_due_date :: "pystr option"
  data_currency :: "pystr option"
  data_tax_rate :: "pystr option"
  data_note :: "pystr option"
  data_items :: "item list option"

definition get :: "'a option \<Rightarrow> 'a \<Rightarrow> 'a" where
  "get field dflt = (case field of None \<Rightarrow> dflt | Some v \<Rightarrow> v)"

subsection \<open>Labels\<close>

definition JPY :: pystr where "JPY = ascii ''JPY''"
definition yen :: nat where "yen = 0xA5"
definition title_label :: pystr where "title_label = [0x8ACB, 0x6C42, 0x66F8] @ ascii '' / INVOICE''"
definition from_label :: pystr where "from_label = [0x8ACB, 0x6C42, 0x5143] @ ascii '' / From''"
definition invoice_no_label :: pystr where
  "invoice_no_label = [0x8ACB, 0x6C42, 0x66F8, 0x756A, 0x53F7] @ ascii '' / Invoice No.''"
definition date_label :: pystr where "date_label = [0x8ACB, 0x6C42, 0x65E5] @ ascii '' / Date''"
definition due_date_label :: pystr where
  "due_date_label = [0x652F, 0x6255, 0x671F, 0x65E5] @ ascii '' / Due Date''"
definition currency_label :: pystr where "currency_label = [0x901A, 0x8CA8] @ ascii '' / Currency''"
definition tax_rate_label :: pystr where "tax_rate_label = [0x7A0E, 0x7387] @ ascii '' / Tax Rate''"
definition bill_to_label :: pystr where "bill_to_label = [0x8ACB, 0x6C42, 0x5148] @ ascii '' / Bill To''"
definition items_label :: pystr where "items_label = [0x660E, 0x7D30] @ ascii '' / Items''"
definition headers :: "pystr list" where
  "headers = [[0x5185, 0x5BB9] @ ascii '' / Description'', [0x6570, 0x91CF] @ ascii '' / Qty'',
              [0x5358, 0x4FA1] @ ascii '' / Unit'', [0x5C0F, 0x8A08] @ ascii '' / Subtotal'']"
definition subtotal_label :: pystr where "subtotal_label = [0x5C0F, 0x8A08] @ ascii '' / Subtotal''"
definition total_label :: pystr where "total_label = [0x5408, 0x8A08] @ ascii '' / Total''"

definition rate_subtotal_label :: "rat \<Rightarrow> pystr" where
  "rate_subtotal_label rate =
     [0x5BFE, 0x8C61, 0x5C0F, 0x8A08, 0xFF08] @ str_int (py_int (rate * 100)) @ [37, 0xFF09]"

definition rate_tax_label :: "rat \<Rightarrow> pystr" where
  "rate_tax_label rate =
     [0x6D88, 0x8CBB, 0x7A0E, 0xFF08] @ str_int (py_int (rate * 100)) @ [37, 0xFF09]"

subsection \<open>Money\<close>

text \<open>The nested function \<^verbatim>\<open>money\<close>, lines 272 to 274, with \<^verbatim>\<open>currency\<close> as a parameter.\<close>

definition money :: "pystr \<Rightarrow> rat \<Rightarrow> pystr" where
  "money currency v =
     (let s = (if currency = JPY then fmt_f True 0 v else fmt_f True 2 v)
      in if currency = JPY then yen # s else s)"

subsection \<open>Drawing a wrapped paragraph\<close>

text \<open>
  \<^verbatim>\<open>draw_wrapped\<close>, lines 78 to 93: the same loop as \<^verbatim>\<open>wrap_lines\<close>, drawing each
  completed line and moving \<^verbatim>\<open>y\<close> down. The result is the instructions and the next
  \<^verbatim>\<open>y\<close>.
\<close>

fun draw_wrapped_loop ::
  "(pystr \<Rightarrow> rat) \<Rightarrow> rat \<Rightarrow> rat \<Rightarrow> rat \<Rightarrow> pystr \<Rightarrow> instr list \<Rightarrow> rat \<Rightarrow> pystr
     \<Rightarrow> instr list \<times> rat \<times> pystr" where
  "draw_wrapped_loop sw max_width line_height x [] out y line = (out, y, line)"
| "draw_wrapped_loop sw max_width line_height x (ch # s) out y line =
     (let test = line @ [ch] in
      if sw test \<le> max_width then draw_wrapped_loop sw max_width line_height x s out y test
      else draw_wrapped_loop sw max_width line_height x s
             (out @ [DrawString x y line]) (y - line_height) [ch])"

definition draw_wrapped ::
  "env \<Rightarrow> pystr \<Rightarrow> rat \<Rightarrow> rat \<Rightarrow> string \<Rightarrow> rat \<Rightarrow> rat \<Rightarrow> rat \<Rightarrow> instr list \<times> rat" where
  "draw_wrapped e text x y font_name font_size max_width line_height =
     (case draw_wrapped_loop (\<lambda>t. stringWidth e t font_name font_size) max_width line_height x
             text [SetFont font_name font_size] y [] of
        (out, y', line) \<Rightarrow>
          if line \<noteq> [] then (out @ [DrawString x y' line], y' - line_height) else (out, y'))"

subsection \<open>The item table\<close>

text \<open>
  The body of the loop over the items, lines 287 to 337, in the order of the source:
  the subtotal and the rate of the item (line 295: the default rate when \<^verbatim>\<open>taxv\<close> is
  \<^verbatim>\<open>None\<close> or the empty string), the update of \<^verbatim>\<open>subtotal_by_rate\<close>, the four wrapped
  fields, the height of the row, the page break, the four columns, the new \<^verbatim>\<open>row_y\<close>.
\<close>

definition item_desc :: "item \<Rightarrow> pystr" where
  "item_desc it = (case it of Item3 desc qty unit \<Rightarrow> desc | Item4 desc qty unit taxv \<Rightarrow> desc)"

definition item_qty :: "item \<Rightarrow> rat" where
  "item_qty it = (case it of Item3 desc qty unit \<Rightarrow> qty | Item4 desc qty unit taxv \<Rightarrow> qty)"

definition item_unit :: "item \<Rightarrow> rat" where
  "item_unit it = (case it of Item3 desc qty unit \<Rightarrow> unit | Item4 desc qty unit taxv \<Rightarrow> unit)"

definition item_taxv :: "item \<Rightarrow> taxv" where
  "item_taxv it = (case it of Item3 desc qty unit \<Rightarrow> TaxNone | Item4 desc qty unit taxv \<Rightarrow> taxv)"

definition item_sub :: "item \<Rightarrow> rat" where
  "item_sub it = item_qty it * item_unit it"

definition item_rate :: "rat \<Rightarrow> item \<Rightarrow> rat" where
  "item_rate default_rate it =
     (case item_taxv it of TaxNone \<Rightarrow> default_rate | TaxEmpty \<Rightarrow> default_rate | TaxNum r \<Rightarrow> r)"

text \<open>
  \<^verbatim>\<open>subtotal_by_rate\<close> is a \<^verbatim>\<open>defaultdict(float)\<close>: the pairs in the order of insertion.
  \<^verbatim>\<open>d[rate] += sub\<close> adds to the entry of the key, or inserts \<^verbatim>\<open>0.0 + sub\<close> last.
\<close>

fun dict_add :: "(rat \<times> rat) list \<Rightarrow> rat \<Rightarrow> rat \<Rightarrow> (rat \<times> rat) list" where
  "dict_add [] rate sub = [(rate, 0 + sub)]"
| "dict_add ((k, s) # d) rate sub =
     (if k = rate then (k, s + sub) # d else (k, s) # dict_add d rate sub)"

definition dict_get :: "(rat \<times> rat) list \<Rightarrow> rat \<Rightarrow> rat" where
  "dict_get d rate = (case map_of d rate of None \<Rightarrow> 0 | Some s \<Rightarrow> s)"

definition desc_lines :: "env \<Rightarrow> string \<Rightarrow> item \<Rightarrow> pystr list" where
  "desc_lines e base_font it = wrap_lines e (item_desc it) base_font 10 w_desc"

definition qty_lines :: "env \<Rightarrow> string \<Rightarrow> item \<Rightarrow> pystr list" where
  "qty_lines e base_font it = wrap_lines_right e (py_str e (item_qty it)) base_font 10 w_qty"

definition unit_lines :: "env \<Rightarrow> string \<Rightarrow> pystr \<Rightarrow> item \<Rightarrow> pystr list" where
  "unit_lines e base_font currency it =
     wrap_lines_right e (money currency (item_unit it)) base_font 10 w_unit"

definition sub_lines :: "env \<Rightarrow> string \<Rightarrow> pystr \<Rightarrow> item \<Rightarrow> pystr list" where
  "sub_lines e base_font currency it =
     wrap_lines_right e (money currency (item_sub it)) base_font 10 w_sub"

definition max_lines :: "env \<Rightarrow> string \<Rightarrow> pystr \<Rightarrow> item \<Rightarrow> nat" where
  "max_lines e base_font currency it =
     max (max (max (length (desc_lines e base_font it)) (length (qty_lines e base_font it)))
              (length (unit_lines e base_font currency it)))
         (length (sub_lines e base_font currency it))"

definition row_height :: "env \<Rightarrow> string \<Rightarrow> pystr \<Rightarrow> item \<Rightarrow> rat" where
  "row_height e base_font currency it = rat_of_nat (max_lines e base_font currency it) * line_h"

text \<open>
  A loop that draws one line and moves \<^verbatim>\<open>y0\<close> down by a fixed step; in a column of a
  row \<^verbatim>\<open>y0\<close> starts at \<^verbatim>\<open>row_y\<close> and the step is \<^verbatim>\<open>line_h\<close>.
\<close>

fun draw_lines :: "(rat \<Rightarrow> pystr \<Rightarrow> instr) \<Rightarrow> rat \<Rightarrow> rat \<Rightarrow> pystr list \<Rightarrow> instr list" where
  "draw_lines draw step y0 [] = []"
| "draw_lines draw step y0 (l # ls) = draw y0 l # draw_lines draw step (y0 - step) ls"

definition draw_row :: "env \<Rightarrow> string \<Rightarrow> pystr \<Rightarrow> rat \<Rightarrow> item \<Rightarrow> instr list" where
  "draw_row e base_font currency row_y it =
     draw_lines (DrawString (col_x ! 0 + pad_l)) line_h row_y (desc_lines e base_font it)
     @ draw_lines (DrawRightString (col_x ! 2 - pad_r)) line_h row_y (qty_lines e base_font it)
     @ draw_lines (DrawRightString (col_x ! 3 - pad_r)) line_h row_y (unit_lines e base_font currency it)
     @ draw_lines (DrawRightString (col_x ! 4 - pad_r)) line_h row_y (sub_lines e base_font currency it)"

definition overflows :: "env \<Rightarrow> string \<Rightarrow> pystr \<Rightarrow> rat \<Rightarrow> item \<Rightarrow> bool" where
  "overflows e base_font currency row_y it = (row_y - row_height e base_font currency it < 40 * mm)"

definition page_break :: "string \<Rightarrow> instr list" where
  "page_break base_font =
     [ShowPage, SetFont base_font 11,
      DrawString margin_x (height - margin_y - 12 * mm) items_label,
      SetFont base_font 10]"

text \<open>\<^verbatim>\<open>row_y\<close> at which the row of the item is drawn: after the page break, if there is one.\<close>

definition row_top :: "env \<Rightarrow> string \<Rightarrow> pystr \<Rightarrow> rat \<Rightarrow> item \<Rightarrow> rat" where
  "row_top e base_font currency row_y it =
     (if overflows e base_font currency row_y it then height - margin_y - 40 * mm else row_y)"

record loop_state =
  out :: "instr list"
  row_y :: rat
  subtotal_by_rate :: "(rat \<times> rat) list"

definition item_instrs :: "env \<Rightarrow> string \<Rightarrow> pystr \<Rightarrow> rat \<Rightarrow> item \<Rightarrow> instr list" where
  "item_instrs e base_font currency y it =
     [SetFont base_font 10]
     @ (if overflows e base_font currency y it then page_break base_font else [])
     @ draw_row e base_font currency (row_top e base_font currency y it) it"

definition item_step :: "env \<Rightarrow> string \<Rightarrow> pystr \<Rightarrow> rat \<Rightarrow> loop_state \<Rightarrow> item \<Rightarrow> loop_state" where
  "item_step e base_font currency default_rate st it =
     \<lparr> out = out st @ item_instrs e base_font currency (row_y st) it,
       row_y = row_top e base_font currency (row_y st) it - row_height e base_font currency it,
       subtotal_by_rate = dict_add (subtotal_by_rate st) (item_rate default_rate it) (item_sub it) \<rparr>"

fun items_loop :: "env \<Rightarrow> string \<Rightarrow> pystr \<Rightarrow> rat \<Rightarrow> loop_state \<Rightarrow> item list \<Rightarrow> loop_state" where
  "items_loop e base_font currency default_rate st [] = st"
| "items_loop e base_font currency default_rate st (it # its) =
     items_loop e base_font currency default_rate (item_step e base_font currency default_rate st it) its"

subsection \<open>The totals\<close>

text \<open>
  Lines 339 to 368. The rates are the keys of \<^verbatim>\<open>subtotal_by_rate\<close>, sorted, highest
  first; the loop draws two lines for each rate and sums the subtotals and the taxes.
\<close>

definition totals_x_label :: rat where "totals_x_label = col_x ! 3 - 30 * mm"
definition totals_x_val :: rat where "totals_x_val = col_x ! 4 - 4"

definition sorted_reverse :: "rat list \<Rightarrow> rat list" where
  "sorted_reverse ks = rev (sort ks)"

record totals_state =
  t_out :: "instr list"
  t_row_y :: rat
  total_sub :: rat
  total_tax :: rat

definition rate_instrs :: "pystr \<Rightarrow> rat \<Rightarrow> rat \<Rightarrow> rat \<Rightarrow> instr list" where
  "rate_instrs currency sub rate y =
     [DrawRightString totals_x_label y (rate_subtotal_label rate),
      DrawRightString totals_x_val y (money currency sub),
      DrawRightString totals_x_label (y - 14) (rate_tax_label rate),
      DrawRightString totals_x_val (y - 14) (money currency (sub * rate))]"

definition rate_step :: "pystr \<Rightarrow> (rat \<times> rat) list \<Rightarrow> totals_state \<Rightarrow> rat \<Rightarrow> totals_state" where
  "rate_step currency d ts rate =
     (let sub = dict_get d rate; tax = sub * rate in
      \<lparr> t_out = t_out ts @ rate_instrs currency sub rate (t_row_y ts),
        t_row_y = t_row_y ts - 14 - 14,
        total_sub = total_sub ts + sub,
        total_tax = total_tax ts + tax \<rparr>)"

fun rates_loop :: "pystr \<Rightarrow> (rat \<times> rat) list \<Rightarrow> totals_state \<Rightarrow> rat list \<Rightarrow> totals_state" where
  "rates_loop currency d ts [] = ts"
| "rates_loop currency d ts (rate # rates) = rates_loop currency d (rate_step currency d ts rate) rates"

definition totals :: "string \<Rightarrow> pystr \<Rightarrow> (rat \<times> rat) list \<Rightarrow> rat \<Rightarrow> totals_state" where
  "totals base_font currency d y =
     (let y1 = y - 6;
          rule1 = [Line margin_x y1 (width - margin_x) y1];
          y2 = y1 - 18;
          ts = rates_loop currency d
                 \<lparr> t_out = rule1, t_row_y = y2, total_sub = 0, total_tax = 0 \<rparr>
                 (sorted_reverse (map fst d));
          y3 = t_row_y ts;
          y4 = y3 - 18;
          y5 = y4 - 14
      in ts \<lparr> t_out := t_out ts @
                 [Line margin_x y3 (width - margin_x) y3,
                  DrawRightString totals_x_label y4 subtotal_label,
                  DrawRightString totals_x_val y4 (money currency (total_sub ts)),
                  SetFont base_font 12,
                  DrawRightString totals_x_label y5 total_label,
                  DrawRightString totals_x_val y5 (money currency (total_sub ts + total_tax ts))],
              t_row_y := y5 \<rparr>)"

subsection \<open>The note\<close>

text \<open>Lines 371 to 381: the loop over the wrapped lines of the note, with its page break.\<close>

fun note_loop :: "string \<Rightarrow> rat \<Rightarrow> pystr list \<Rightarrow> instr list" where
  "note_loop base_font y [] = []"
| "note_loop base_font y (l # ls) =
     (if y < 24 * mm
      then [ShowPage, SetFont base_font 9, DrawString margin_x (height - margin_y) l]
           @ note_loop base_font (height - margin_y - 12) ls
      else [DrawString margin_x y l] @ note_loop base_font (y - 12) ls)"

definition note_instrs :: "env \<Rightarrow> string \<Rightarrow> pystr \<Rightarrow> rat \<Rightarrow> instr list" where
  "note_instrs e base_font note y =
     SetFont base_font 9 # note_loop base_font (y - 22) (wrap_lines e note base_font 9 (width - 2 * margin_x))"

subsection \<open>The header blocks\<close>

text \<open>
  Lines 116 to 266. \<^verbatim>\<open>float(data.get('tax_rate') or 0)\<close> is 0 when the key is absent or
  its value is the empty string, and raises \<^verbatim>\<open>ValueError\<close> when the string is not a
  number. In the source the lines 211 to 217 stand four columns to the left of the body
  they belong to; the model reads them in the body, where their names are bound.
\<close>

definition FALLBACK_FONT :: string where "FALLBACK_FONT = ''Helvetica''"

definition base_font_of :: "env \<Rightarrow> string" where
  "base_font_of e =
     (case JP_FONT_NAME e of None \<Rightarrow> FALLBACK_FONT
      | Some n \<Rightarrow> if n = [] then FALLBACK_FONT else n)"

definition default_rate_of :: "env \<Rightarrow> invoice_data \<Rightarrow> error + rat" where
  "default_rate_of e data =
     (case data_tax_rate data of None \<Rightarrow> Inr 0
      | Some s \<Rightarrow> if s = [] then Inr 0
                  else (case py_float e s of None \<Rightarrow> Inl ValueError | Some r \<Rightarrow> Inr r))"

definition y_top :: rat where "y_top = height - margin_y - 12 * mm"
definition col_gap :: rat where "col_gap = 6 * mm"
definition col_split_x :: rat where "col_split_x = margin_x + 90 * mm"
definition meta_x :: rat where "meta_x = col_split_x + col_gap"
definition meta_max_w :: rat where "meta_max_w = (width - margin_x) - meta_x"
definition logo_w :: rat where "logo_w = 24 * mm"
definition logo_h :: rat where "logo_h = 24 * mm"
definition logo_x :: rat where "logo_x = width - margin_x - logo_w"
definition logo_y :: rat where "logo_y = height - margin_y - logo_h"

definition one_char_w :: "env \<Rightarrow> string \<Rightarrow> rat" where
  "one_char_w e base_font = stringWidth e [0x3042] base_font 10"

definition seller_max_w :: "env \<Rightarrow> string \<Rightarrow> rat" where
  "seller_max_w e base_font = max (40 * mm) ((col_split_x - margin_x) - one_char_w e base_font)"

definition buyer_max_w :: "env \<Rightarrow> string \<Rightarrow> rat" where
  "buyer_max_w e base_font = (col_split_x - margin_x) - one_char_w e base_font"

text \<open>The loops over \<^verbatim>\<open>seller_lines\<close> and \<^verbatim>\<open>buyer_lines\<close>: an empty line is skipped.\<close>

fun draw_block :: "env \<Rightarrow> string \<Rightarrow> rat \<Rightarrow> instr list \<times> rat \<Rightarrow> pystr list \<Rightarrow> instr list \<times> rat" where
  "draw_block e base_font max_w (acc, y) [] = (acc, y)"
| "draw_block e base_font max_w (acc, y) (line # lines) =
     (if line \<noteq> []
      then (case draw_wrapped e line margin_x y base_font 10 max_w 12 of
              (drawn, y') \<Rightarrow> draw_block e base_font max_w (acc @ drawn, y') lines)
      else draw_block e base_font max_w (acc, y) lines)"

definition invoice_no_block :: "env \<Rightarrow> string \<Rightarrow> pystr \<Rightarrow> rat \<Rightarrow> instr list \<times> rat" where
  "invoice_no_block e base_font invoice_no y_right =
     (if invoice_no \<noteq> []
      then (let lines = wrap_lines e invoice_no base_font 10 meta_max_w in
            (SetFont base_font 10 # draw_lines (DrawString meta_x) 14 y_right lines,
             y_right - 14 * rat_of_nat (length lines) - 2))
      else ([], y_right))"

fun meta_loop :: "env \<Rightarrow> string \<Rightarrow> instr list \<times> rat \<Rightarrow> (pystr \<times> pystr) list \<Rightarrow> instr list \<times> rat" where
  "meta_loop e base_font (acc, y_right) [] = (acc, y_right)"
| "meta_loop e base_font (acc, y_right) ((label, val) # rest) =
     (let lines = wrap_lines e val base_font 10 meta_max_w in
      meta_loop e base_font
        (acc @ [DrawString meta_x y_right label] @ draw_lines (DrawString meta_x) 14 (y_right - 12) lines,
         y_right - 12 - 14 * rat_of_nat (length lines))
        rest)"

definition meta_fields :: "invoice_data \<Rightarrow> rat \<Rightarrow> (pystr \<times> pystr) list" where
  "meta_fields data default_rate =
     [(date_label, get (data_date data) []),
      (due_date_label, get (data_due_date data) []),
      (currency_label, get (data_currency data) JPY),
      (tax_rate_label, fmt_f False 0 (default_rate * 100) @ [37])]"

definition table_header :: "string \<Rightarrow> rat \<Rightarrow> instr list" where
  "table_header base_font table_top =
     (let header_y = table_top - 16 in
      [SetFont base_font 11, DrawString margin_x table_top items_label, SetFont base_font 10,
       DrawString (col_x ! 0) header_y (headers ! 0),
       DrawString (col_x ! 1) header_y (headers ! 1),
       DrawString (col_x ! 2) header_y (headers ! 2),
       DrawString (col_x ! 3) header_y (headers ! 3),
       Line margin_x (header_y - 4) (width - margin_x) (header_y - 4)])"

text \<open>The instructions of the lines 128 to 266 and \<^verbatim>\<open>row_y\<close> of line 269.\<close>

definition header :: "env \<Rightarrow> invoice_data \<Rightarrow> rat \<Rightarrow> instr list \<times> rat" where
  "header e data default_rate =
     (let base_font = base_font_of e;
          title_instrs =
            [SetFont base_font 18,
             DrawString margin_x (height - margin_y) (get (data_title data) title_label),
             SetFont base_font 10];
          logo_drawn = (logo_exists e \<and> drawImage_ok e);
          logo_instrs = (if logo_drawn then [DrawImage logo_x logo_y logo_w logo_h] else []);
          logo_bottom_y = (if logo_drawn then logo_y else y_top);
          heads = [SetFont base_font 11, DrawString margin_x y_top from_label,
                   DrawString meta_x y_top invoice_no_label];
          seller_lines = [get (data_seller_name data) [], get (data_seller_address data) [],
                          get (data_seller_phone data) [], get (data_seller_email data) []];
          (seller_instrs, y_left) =
             draw_block e base_font (seller_max_w e base_font) ([], y_top - 16) seller_lines;
          (no_instrs, y_right1) =
             invoice_no_block e base_font (get (data_invoice_no data) []) (y_top - 16);
          (meta_instrs, y_right) =
             meta_loop e base_font ([SetFont base_font 10], y_right1) (meta_fields data default_rate);
          y_bt0 = min (min y_left y_right) logo_bottom_y - 10 * mm;
          buyer_lines = [get (data_buyer_name data) [], get (data_buyer_address data) [],
                         get (data_buyer_phone data) [], get (data_buyer_email data) []];
          (buyer_instrs, y_bt) =
             draw_block e base_font (buyer_max_w e base_font)
               ([SetFont base_font 11, DrawString margin_x y_bt0 bill_to_label], y_bt0 - 16) buyer_lines;
          table_top = min (min y_bt y_left) y_right - 8 * mm
      in (title_instrs @ logo_instrs @ heads @ seller_instrs @ no_instrs @ meta_instrs
            @ buyer_instrs @ table_header base_font table_top,
          table_top - 16 - 18))"

subsection \<open>The render\<close>

text \<open>
  \<^verbatim>\<open>generate_invoice_pdf\<close>: the calls on the canvas of one render, in order, or the
  exception. The four phases after the header are kept apart so that each can be named.
\<close>

definition items_phase :: "env \<Rightarrow> invoice_data \<Rightarrow> rat \<Rightarrow> rat \<Rightarrow> loop_state" where
  "items_phase e data default_rate y =
     items_loop e (base_font_of e) (get (data_currency data) JPY) default_rate
       \<lparr> out = [], row_y = y, subtotal_by_rate = [] \<rparr>
       (get (data_items data) [])"

definition totals_phase :: "env \<Rightarrow> invoice_data \<Rightarrow> loop_state \<Rightarrow> totals_state" where
  "totals_phase e data st =
     totals (base_font_of e) (get (data_currency data) JPY) (subtotal_by_rate st) (row_y st)"

definition note_phase :: "env \<Rightarrow> invoice_data \<Rightarrow> totals_state \<Rightarrow> instr list" where
  "note_phase e data ts = note_instrs e (base_font_of e) (get (data_note data) []) (t_row_y ts)"

definition generate_invoice_pdf :: "env \<Rightarrow> invoice_data \<Rightarrow> error + instr list" where
  "generate_invoice_pdf e data =
     (case default_rate_of e data of
        Inl err \<Rightarrow> Inl err
      | Inr default_rate \<Rightarrow>
          (case header e data default_rate of
             (header_instrs, y) \<Rightarrow>
               (let st = items_phase e data default_rate y;
                    ts = totals_phase e data st
                in Inr (header_instrs @ out st @ t_out ts @ note_phase e data ts
                        @ [ShowPage, Save]))))"

subsection \<open>The items cell of the batch route\<close>

text \<open>
  \<^verbatim>\<open>generate_batch\<close>, lines 578 to 599. \<^verbatim>\<open>str.split\<close> on a separator of one character,
  \<^verbatim>\<open>str.strip\<close> with the white space of \<^verbatim>\<open>str.isspace\<close>, and \<^verbatim>\<open>float\<close> as the
  parameter \<open>py_float\<close>, whose \<open>None\<close> is the \<^verbatim>\<open>ValueError\<close> the source catches.
\<close>

fun split :: "nat \<Rightarrow> pystr \<Rightarrow> pystr list" where
  "split sep [] = [[]]"
| "split sep (c # s) =
     (if c = sep then [] # split sep s
      else (case split sep s of [] \<Rightarrow> [[c]] | x # xs \<Rightarrow> (c # x) # xs))"

definition isspace :: "nat \<Rightarrow> bool" where
  "isspace c = ((0x9 \<le> c \<and> c \<le> 0xD) \<or> (0x1C \<le> c \<and> c \<le> 0x20) \<or> c = 0x85 \<or> c = 0xA0
               \<or> c = 0x1680 \<or> (0x2000 \<le> c \<and> c \<le> 0x200A) \<or> c = 0x2028 \<or> c = 0x2029
               \<or> c = 0x202F \<or> c = 0x205F \<or> c = 0x3000)"

definition strip :: "pystr \<Rightarrow> pystr" where
  "strip s = rev (dropWhile isspace (rev (dropWhile isspace s)))"

definition segs_of :: "pystr \<Rightarrow> pystr list" where
  "segs_of part = map strip (split 124 part)"

definition parse_taxv :: "env \<Rightarrow> pystr list \<Rightarrow> taxv" where
  "parse_taxv e segs =
     (if 4 \<le> length segs \<and> segs ! 3 \<noteq> []
      then (case py_float e (segs ! 3) of None \<Rightarrow> TaxNone | Some r \<Rightarrow> TaxNum r)
      else TaxNone)"

definition parse_qty_unit :: "env \<Rightarrow> pystr \<Rightarrow> pystr \<Rightarrow> rat \<times> rat" where
  "parse_qty_unit e qty unit =
     (case py_float e qty of None \<Rightarrow> (0, 0)
      | Some qv \<Rightarrow> (case py_float e unit of None \<Rightarrow> (0, 0) | Some uv \<Rightarrow> (qv, uv)))"

definition parse_part :: "env \<Rightarrow> pystr \<Rightarrow> item option" where
  "parse_part e part0 =
     (let part = strip part0 in
      if part = [] then None
      else (let segs = segs_of part in
            if 3 \<le> length segs
            then (case parse_qty_unit e (segs ! 1) (segs ! 2) of
                    (qv, uv) \<Rightarrow> Some (Item4 (segs ! 0) qv uv (parse_taxv e segs)))
            else None))"

definition parse_items :: "env \<Rightarrow> pystr option \<Rightarrow> item list" where
  "parse_items e items_raw =
     (case items_raw of None \<Rightarrow> []
      | Some raw \<Rightarrow> if raw = [] then [] else List.map_filter (parse_part e) (split 59 raw))"

subsection \<open>Observations on instructions\<close>

text \<open>The vertical position of an instruction that draws text, and an instruction moved down by \<open>dy\<close>.\<close>

definition text_y :: "instr \<Rightarrow> rat option" where
  "text_y i = (case i of DrawString x y t \<Rightarrow> Some y | DrawRightString x y t \<Rightarrow> Some y | _ \<Rightarrow> None)"

definition in_band :: "rat \<Rightarrow> rat \<Rightarrow> instr \<Rightarrow> bool" where
  "in_band lo hi i = (case text_y i of None \<Rightarrow> False | Some y \<Rightarrow> lo < y \<and> y \<le> hi)"

definition move_down :: "rat \<Rightarrow> instr \<Rightarrow> instr" where
  "move_down dy i =
     (case i of
        DrawString x y t \<Rightarrow> DrawString x (y - dy) t
      | DrawRightString x y t \<Rightarrow> DrawRightString x (y - dy) t
      | Line x1 y1 x2 y2 \<Rightarrow> Line x1 (y1 - dy) x2 (y2 - dy)
      | DrawImage x y w h \<Rightarrow> DrawImage x (y - dy) w h
      | _ \<Rightarrow> i)"

subsection \<open>Inputs for evaluation\<close>

text \<open>
  A stand-in for the collaborators, used where a statement is evaluated at a concrete
  input: every character is \<open>cw\<close> wide per unit of size, \<open>py_float\<close> reads decimal
  digits with at most one point between them, and \<open>py_str\<close> writes the integer part
  followed by \<^verbatim>\<open>.0\<close>.
\<close>

definition is_digit :: "nat \<Rightarrow> bool" where
  "is_digit c = (48 \<le> c \<and> c \<le> 57)"

definition digits_val :: "pystr \<Rightarrow> nat" where
  "digits_val ds = foldl (\<lambda>a c. 10 * a + (c - 48)) 0 ds"

definition dec_float :: "pystr \<Rightarrow> rat option" where
  "dec_float s =
     (case split 46 s of
        [ip] \<Rightarrow> if ip \<noteq> [] \<and> list_all is_digit ip then Some (rat_of_nat (digits_val ip)) else None
      | [ip, fp] \<Rightarrow>
          if ip \<noteq> [] \<and> fp \<noteq> [] \<and> list_all is_digit ip \<and> list_all is_digit fp
          then Some (rat_of_nat (digits_val ip) + rat_of_nat (digits_val fp) / 10 ^ length fp)
          else None
      | _ \<Rightarrow> None)"

definition mono_env :: "rat \<Rightarrow> env" where
  "mono_env cw =
     \<lparr> stringWidth = (\<lambda>t f sz. rat_of_nat (length t) * cw * sz),
       py_float = dec_float,
       py_str = (\<lambda>q. str_int \<lfloor>q\<rfloor> @ [46, 48]),
       JP_FONT_NAME = None,
       logo_exists = False,
       drawImage_ok = False \<rparr>"

text \<open>An item whose description is 26 characters long.\<close>

definition item26 :: item where
  "item26 = Item4 (ascii ''abcdefghijklmnopqrstuvwxyz'') 1 5 TaxNone"

text \<open>
  An invoice with four items at three rates: 1000 at the default rate of 10 percent,
  500 at 8 percent and 200 at 0 percent.
\<close>

definition data3 :: invoice_data where
  "data3 =
     \<lparr> data_title = None, data_seller_name = Some (ascii ''S''), data_seller_address = None,
       data_seller_email = None, data_seller_phone = None, data_buyer_name = Some (ascii ''B''),
       data_buyer_address = None, data_buyer_email = None, data_buyer_phone = None,
       data_invoice_no = Some (ascii ''INV-1''), data_date = None, data_due_date = None,
       data_currency = None, data_tax_rate = Some (ascii ''0.1''), data_note = None,
       data_items = Some [Item4 (ascii ''a'') 2 300 TaxNone, Item4 (ascii ''b'') 5 100 (TaxNum (2 / 25)),
                          Item3 (ascii ''d'') 4 100, Item4 (ascii ''c'') 1 200 (TaxNum 0)] \<rparr>"


subsection \<open>Reading a formatted amount\<close>

text \<open>
  What a grouped number looks like: groups of decimal digits between commas, the first
  of one to three digits and every other of three. \<open>ungroup\<close> removes the commas.
\<close>

definition grouped :: "pystr \<Rightarrow> bool" where
  "grouped s =
     (case split 44 s of
        [] \<Rightarrow> False
      | g # gs \<Rightarrow> g \<noteq> [] \<and> length g \<le> 3 \<and> list_all is_digit g
                 \<and> list_all (\<lambda>h. length h = 3 \<and> list_all is_digit h) gs)"

definition ungroup :: "pystr \<Rightarrow> pystr" where
  "ungroup s = filter (\<lambda>c. c \<noteq> 44) s"

section \<open>Properties\<close>

subsection \<open>Properties of wrapping\<close>

lemma wrap_loop_concat:
  "wrap_loop sw w s lines cur = (lines', cur') \<Longrightarrow>
     concat lines' @ cur' = concat lines @ cur @ s"
proof (induction s arbitrary: lines cur)
  case Nil
  then show ?case by simp
next
  case (Cons ch s)
  show ?case
  proof (cases "sw (cur @ [ch]) \<le> w")
    case True
    with Cons.prems have "wrap_loop sw w s lines (cur @ [ch]) = (lines', cur')"
      by simp
    from Cons.IH [OF this] show ?thesis by simp
  next
    case False
    with Cons.prems have "wrap_loop sw w s (lines @ [cur]) [ch] = (lines', cur')"
      by simp
    from Cons.IH [OF this] show ?thesis by simp
  qed
qed

lemma wrap_loop_fits:
  "wrap_loop sw w s lines cur = (lines', cur') \<Longrightarrow>
   list_all (fits sw w) lines \<Longrightarrow> fits sw w cur \<Longrightarrow>
     list_all (fits sw w) lines' \<and> fits sw w cur'"
proof (induction s arbitrary: lines cur)
  case Nil
  then show ?case by simp
next
  case (Cons ch s)
  show ?case
  proof (cases "sw (cur @ [ch]) \<le> w")
    case True
    with Cons.prems(1) have run: "wrap_loop sw w s lines (cur @ [ch]) = (lines', cur')"
      by simp
    from True have "fits sw w (cur @ [ch])" by (simp add: fits_def)
    from Cons.IH [OF run Cons.prems(2) this] show ?thesis .
  next
    case False
    with Cons.prems(1) have run: "wrap_loop sw w s (lines @ [cur]) [ch] = (lines', cur')"
      by simp
    have a: "list_all (fits sw w) (lines @ [cur])"
      using Cons.prems(2,3) by simp
    have b: "fits sw w [ch]" by (simp add: fits_def)
    from Cons.IH [OF run a b] show ?thesis .
  qed
qed

lemma wrap_lines_nonempty: "wrap_lines e s f sz w \<noteq> []"
  by (simp add: wrap_lines_def Let_def split: prod.splits)

lemma wrap_lines_concat: "concat (wrap_lines e s f sz w) = s"
proof -
  obtain lines cur where run: "wrap_loop (\<lambda>t. stringWidth e t f sz) w s [] [] = (lines, cur)"
    by (cases "wrap_loop (\<lambda>t. stringWidth e t f sz) w s [] []") auto
  from wrap_loop_concat [OF run] have c: "concat lines @ cur = s" by simp
  show ?thesis
  proof (cases "cur = []")
    case True
    with c run show ?thesis by (auto simp: wrap_lines_def Let_def)
  next
    case False
    with c run show ?thesis by (auto simp: wrap_lines_def Let_def)
  qed
qed

lemma wrap_lines_fits:
  assumes "stringWidth e [] f sz \<le> w"
  shows "list_all (fits (\<lambda>t. stringWidth e t f sz) w) (wrap_lines e s f sz w)"
proof -
  let ?sw = "\<lambda>t. stringWidth e t f sz"
  obtain lines cur where run: "wrap_loop ?sw w s [] [] = (lines, cur)"
    by (cases "wrap_loop ?sw w s [] []") auto
  have e0: "fits ?sw w []" using assms by (simp add: fits_def)
  from wrap_loop_fits [OF run _ e0]
  have inv: "list_all (fits ?sw w) lines" "fits ?sw w cur" by simp_all
  show ?thesis
    using run inv e0 by (auto simp: wrap_lines_def Let_def)
qed

lemma wrap_lines_empty: "wrap_lines e [] f sz w = [[]]"
  by (simp add: wrap_lines_def)

text \<open>
  C3. For every string \<open>s\<close> and width \<open>w > 0\<close>, with a measurer that gives the empty
  string the width 0: \<^verbatim>\<open>wrap_lines\<close> returns a non-empty list of lines, the concatenation
  of the lines is \<open>s\<close>, every line has a measured width of at most \<open>w\<close> unless it is a
  single character wider than \<open>w\<close>, and the empty string wraps to the list holding the
  empty line only.
\<close>

theorem C3_wrap_lines:
  assumes "0 < w" and "stringWidth e [] f sz = 0"
  shows "wrap_lines e s f sz w \<noteq> []
       \<and> concat (wrap_lines e s f sz w) = s
       \<and> (\<forall>l \<in> set (wrap_lines e s f sz w).
             stringWidth e l f sz \<le> w \<or> (length l = 1 \<and> w < stringWidth e l f sz))
       \<and> wrap_lines e [] f sz w = [[]]"
proof -
  have "stringWidth e [] f sz \<le> w" using assms by simp
  from wrap_lines_fits [OF this, of s]
  have "\<forall>l \<in> set (wrap_lines e s f sz w).
          stringWidth e l f sz \<le> w \<or> (length l = 1 \<and> w < stringWidth e l f sz)"
    by (auto simp: list_all_iff fits_def)
  then show ?thesis
    using wrap_lines_nonempty wrap_lines_concat wrap_lines_empty by blast
qed

theorem C3_wrap_lines_witness:
  "wrap_lines (mono_env (1/2)) (ascii ''abcdefg'') ''Helvetica'' 10 15 =
     [ascii ''abc'', ascii ''def'', ascii ''g'']
   \<and> concat (wrap_lines (mono_env (1/2)) (ascii ''abcdefg'') ''Helvetica'' 10 15) = ascii ''abcdefg''
   \<and> wrap_lines (mono_env (1/2)) [] ''Helvetica'' 10 15 = [[]]"
  using C3_wrap_lines [of 15 "mono_env (1/2)" "''Helvetica''" 10 "ascii ''abcdefg''"]
  by (simp add: wrap_lines_def mono_env_def ascii_def)

text \<open>
  C4. A one-character string whose character is wider than \<^verbatim>\<open>max_width\<close> wraps to two
  lines: the empty line, which is the accumulator emitted when the candidate did not
  fit, and the line of the character, unbroken. In general, when the candidate does not
  fit, the accumulator is appended to the lines, empty or not, and the new accumulator
  is the current character.
\<close>

theorem C4_wide_char:
  "(w < stringWidth e [c] f sz \<longrightarrow> wrap_lines e [c] f sz w = [[], [c]])
   \<and> (w < sw (cur @ [ch]) \<longrightarrow>
        wrap_loop sw w (ch # s) lines cur = wrap_loop sw w s (lines @ [cur]) [ch])"
  by (simp add: wrap_lines_def)

theorem C4_wide_char_witness:
  "wrap_lines (mono_env 1) [87] ''Helvetica'' 10 5 = [[], [87]]
   \<and> wrap_loop (\<lambda>t. rat_of_nat (length t)) 2 [99, 100] [] [97, 98] =
       wrap_loop (\<lambda>t. rat_of_nat (length t)) 2 [100] [[97, 98]] [99]"
  using C4_wide_char [of 5 "mono_env 1" 87 "''Helvetica''" 10 "\<lambda>t. rat_of_nat (length t)" "[97, 98]" 99 "[100]" "[]"]
  by (simp add: mono_env_def)

text \<open>The claim as written, one line for a wide character, fails at a width of 5.\<close>

theorem C4_wide_char_counterexample:
  "5 < stringWidth (mono_env 1) [87] ''Helvetica'' 10
   \<and> wrap_lines (mono_env 1) [87] ''Helvetica'' 10 5 = [[], [87]]
   \<and> wrap_lines (mono_env 1) [87] ''Helvetica'' 10 5 \<noteq> [[87]]"
  by (simp add: wrap_lines_def mono_env_def)

lemma draw_lines_no_showpage:
  "(\<And>y l. draw y l \<noteq> ShowPage) \<Longrightarrow> ShowPage \<notin> set (draw_lines draw step y0 ls)"
proof (induction ls arbitrary: y0)
  case Nil
  then show ?case by simp
next
  case (Cons l ls)
  have "draw y0 l \<noteq> ShowPage" by (rule Cons.prems)
  moreover have "ShowPage \<notin> set (draw_lines draw step (y0 - step) ls)"
    by (rule Cons.IH) (rule Cons.prems)
  ultimately show ?case by auto
qed

lemma draw_row_no_showpage: "ShowPage \<notin> set (draw_row e bf cur y it)"
  by (simp add: draw_row_def draw_lines_no_showpage)

lemma draw_lines_band:
  assumes "\<And>y l. text_y (draw y l) = Some y" and "0 < step"
    and "rat_of_nat (length ls) * step \<le> h"
  shows "list_all (in_band (y0 - h) y0) (draw_lines draw step y0 ls)"
  using assms(3)
proof (induction ls arbitrary: y0 h)
  case Nil
  then show ?case by simp
next
  case (Cons l ls)
  from Cons.prems have le: "rat_of_nat (length ls) * step \<le> h - step"
    by (simp add: algebra_simps)
  have "list_all (in_band (y0 - step - (h - step)) (y0 - step)) (draw_lines draw step (y0 - step) ls)"
    by (rule Cons.IH [OF le])
  then have tl: "list_all (in_band (y0 - h) y0) (draw_lines draw step (y0 - step) ls)"
    using assms(2) by (auto simp: list_all_iff in_band_def split: option.splits)
  have "0 \<le> rat_of_nat (length ls) * step" using assms(2) by simp
  with le have "step \<le> h" by linarith
  with assms(2) have hd: "in_band (y0 - h) y0 (draw y0 l)"
    by (simp add: in_band_def assms(1))
  from hd tl show ?case by simp
qed

lemma line_h_pos: "0 < line_h" by (simp add: line_h_def)

lemma draw_row_band:
  "list_all (in_band (y - row_height e bf cur it) y) (draw_row e bf cur y it)"
proof -
  have a: "\<And>n. n \<le> max_lines e bf cur it \<Longrightarrow> rat_of_nat n * line_h \<le> row_height e bf cur it"
    using line_h_pos by (simp add: row_height_def mult_right_mono)
  show ?thesis
    unfolding draw_row_def list_all_append
    by (intro conjI draw_lines_band line_h_pos a) (simp_all add: text_y_def max_lines_def)
qed

subsection \<open>Properties of the item table\<close>

lemma items_loop_snoc:
  "items_loop e bf cur dr st (its @ [it]) = item_step e bf cur dr (items_loop e bf cur dr st its) it"
  by (induction its arbitrary: st) simp_all

text \<open>
  C5. The height of the row of an item is the line height times the greatest of the
  numbers of lines of its four wrapped fields; with three lines of description and one
  line in each other field it is three line heights; every line of the row is drawn
  inside the band of that height below \<^verbatim>\<open>row_y\<close>, and the cursor moves down by it.
\<close>

theorem C5_row_height:
  "row_height e bf cur it =
     line_h * rat_of_nat (Max {length (desc_lines e bf it), length (qty_lines e bf it),
                               length (unit_lines e bf cur it), length (sub_lines e bf cur it)})
   \<and> (length (desc_lines e bf it) = 3 \<and> length (qty_lines e bf it) = 1
        \<and> length (unit_lines e bf cur it) = 1 \<and> length (sub_lines e bf cur it) = 1
      \<longrightarrow> row_height e bf cur it = 3 * line_h)
   \<and> list_all (in_band (y - row_height e bf cur it) y) (draw_row e bf cur y it)
   \<and> length (draw_row e bf cur y it) =
       length (desc_lines e bf it) + length (qty_lines e bf it)
       + length (unit_lines e bf cur it) + length (sub_lines e bf cur it)
   \<and> row_y (item_step e bf cur dr st it) =
       row_top e bf cur (row_y st) it - row_height e bf cur it"
proof -
  have len: "\<And>draw step y0 ls. length (draw_lines draw step y0 ls) = length ls"
  proof -
    fix draw step y0 ls
    show "length (draw_lines draw step y0 ls) = length ls"
      by (induction ls arbitrary: y0) simp_all
  qed
  have h: "row_height e bf cur it =
     line_h * rat_of_nat (Max {length (desc_lines e bf it), length (qty_lines e bf it),
                               length (unit_lines e bf cur it), length (sub_lines e bf cur it)})"
    by (simp add: row_height_def max_lines_def max.commute max.left_commute)
  have three: "length (desc_lines e bf it) = 3 \<and> length (qty_lines e bf it) = 1
        \<and> length (unit_lines e bf cur it) = 1 \<and> length (sub_lines e bf cur it) = 1
      \<longrightarrow> row_height e bf cur it = 3 * line_h"
    by (simp add: row_height_def max_lines_def)
  have n: "length (draw_row e bf cur y it) =
       length (desc_lines e bf it) + length (qty_lines e bf it)
       + length (unit_lines e bf cur it) + length (sub_lines e bf cur it)"
    by (simp add: draw_row_def len)
  have c: "row_y (item_step e bf cur dr st it) =
       row_top e bf cur (row_y st) it - row_height e bf cur it"
    by (simp add: item_step_def)
  from h three draw_row_band n c show ?thesis by blast
qed

lemma item26_lines:
  "length (desc_lines (mono_env 2) ''Helvetica'' item26) = 3"
  "length (qty_lines (mono_env 2) ''Helvetica'' item26) = 1"
  "length (unit_lines (mono_env 2) ''Helvetica'' JPY item26) = 1"
  "length (sub_lines (mono_env 2) ''Helvetica'' JPY item26) = 1"
  by (simp_all add: desc_lines_def qty_lines_def unit_lines_def sub_lines_def item26_def
      wrap_lines_right_def wrap_lines_def mono_env_def ascii_def item_desc_def item_qty_def
      item_unit_def item_sub_def w_desc_def w_qty_def w_unit_def w_sub_def col_x_def pad_l_def
      pad_r_def mm_def margin_x_def width_def money_def fmt_f_def round_half_even_def
      str_nat.simps group3.simps str_int_def JPY_def yen_def)

theorem C5_row_height_witness:
  "row_height (mono_env 2) ''Helvetica'' JPY item26 = 42"
  using C5_row_height [of "mono_env 2" "''Helvetica''" JPY item26 0 0
      "\<lparr> out = [], row_y = 0, subtotal_by_rate = [] \<rparr>"] item26_lines
  by (simp add: line_h_def)

text \<open>
  C2. In the table phase the instructions of the items follow each other in the order of
  the items. For an item met with the cursor at \<open>y\<close>: when \<open>y\<close> minus the height of its
  row is below 40 mm, one \<^verbatim>\<open>showPage\<close> is emitted before the row, then the Items header
  at 12 mm below the top margin, and the row is drawn from 40 mm below the top margin;
  otherwise the row is drawn from \<open>y\<close> and no page break is emitted. The instructions
  that draw the lines of a row hold no \<^verbatim>\<open>showPage\<close>.
\<close>

theorem C2_page_break:
  "out (items_loop e bf cur dr st (its @ [it])) =
     out (items_loop e bf cur dr st its)
     @ item_instrs e bf cur (row_y (items_loop e bf cur dr st its)) it
   \<and> (y - row_height e bf cur it < 40 * mm \<longrightarrow>
        item_instrs e bf cur y it =
          [SetFont bf 10, ShowPage, SetFont bf 11,
           DrawString margin_x (height - margin_y - 12 * mm) items_label, SetFont bf 10]
          @ draw_row e bf cur (height - margin_y - 40 * mm) it
        \<and> row_y (item_step e bf cur dr (st\<lparr>row_y := y\<rparr>) it) =
            height - margin_y - 40 * mm - row_height e bf cur it)
   \<and> (\<not> y - row_height e bf cur it < 40 * mm \<longrightarrow>
        item_instrs e bf cur y it = SetFont bf 10 # draw_row e bf cur y it
        \<and> row_y (item_step e bf cur dr (st\<lparr>row_y := y\<rparr>) it) = y - row_height e bf cur it)
   \<and> ShowPage \<notin> set (draw_row e bf cur y' it)
   \<and> count_list (item_instrs e bf cur y it) ShowPage =
       (if y - row_height e bf cur it < 40 * mm then 1 else 0)"
proof -
  have nc: "\<And>y'. count_list (draw_row e bf cur y' it) ShowPage = 0"
    using draw_row_no_showpage by (simp add: count_list_0_iff)
  have a: "out (items_loop e bf cur dr st (its @ [it])) =
     out (items_loop e bf cur dr st its)
     @ item_instrs e bf cur (row_y (items_loop e bf cur dr st its)) it"
    by (simp add: items_loop_snoc item_step_def)
  have b: "y - row_height e bf cur it < 40 * mm \<longrightarrow>
        item_instrs e bf cur y it =
          [SetFont bf 10, ShowPage, SetFont bf 11,
           DrawString margin_x (height - margin_y - 12 * mm) items_label, SetFont bf 10]
          @ draw_row e bf cur (height - margin_y - 40 * mm) it
        \<and> row_y (item_step e bf cur dr (st\<lparr>row_y := y\<rparr>) it) =
            height - margin_y - 40 * mm - row_height e bf cur it"
    by (simp add: item_instrs_def item_step_def overflows_def row_top_def page_break_def)
  have c: "\<not> y - row_height e bf cur it < 40 * mm \<longrightarrow>
        item_instrs e bf cur y it = SetFont bf 10 # draw_row e bf cur y it
        \<and> row_y (item_step e bf cur dr (st\<lparr>row_y := y\<rparr>) it) = y - row_height e bf cur it"
    by (simp add: item_instrs_def item_step_def overflows_def row_top_def)
  have d: "count_list (item_instrs e bf cur y it) ShowPage =
       (if y - row_height e bf cur it < 40 * mm then 1 else 0)"
    by (simp add: item_instrs_def overflows_def page_break_def nc)
  from a b c d draw_row_no_showpage show ?thesis by blast
qed

theorem C2_page_break_witness:
  "item_instrs (mono_env 2) ''Helvetica'' JPY 120 (Item3 [97] 1 5) =
     [SetFont ''Helvetica'' 10, ShowPage, SetFont ''Helvetica'' 11,
      DrawString margin_x (height - margin_y - 12 * mm) items_label, SetFont ''Helvetica'' 10]
     @ draw_row (mono_env 2) ''Helvetica'' JPY (height - margin_y - 40 * mm) (Item3 [97] 1 5)
   \<and> item_instrs (mono_env 2) ''Helvetica'' JPY 130 (Item3 [97] 1 5) =
       SetFont ''Helvetica'' 10 # draw_row (mono_env 2) ''Helvetica'' JPY 130 (Item3 [97] 1 5)"
proof -
  have h: "row_height (mono_env 2) ''Helvetica'' JPY (Item3 [97] 1 5) = 14"
    by (simp add: row_height_def max_lines_def desc_lines_def qty_lines_def unit_lines_def
      sub_lines_def wrap_lines_right_def wrap_lines_def mono_env_def item_desc_def item_qty_def
      item_unit_def item_sub_def w_desc_def w_qty_def w_unit_def w_sub_def col_x_def pad_l_def
      pad_r_def mm_def margin_x_def width_def money_def fmt_f_def round_half_even_def
      str_nat.simps group3.simps str_int_def JPY_def yen_def ascii_def line_h_def)
  have lt: "120 - row_height (mono_env 2) ''Helvetica'' JPY (Item3 [97] 1 5) < 40 * mm"
    by (simp add: h mm_def)
  have ge: "\<not> 130 - row_height (mono_env 2) ''Helvetica'' JPY (Item3 [97] 1 5) < 40 * mm"
    by (simp add: h mm_def)
  from C2_page_break [of "mono_env 2" "''Helvetica''" JPY 0 "\<lparr> out = [], row_y = 0, subtotal_by_rate = [] \<rparr>" "[]"
      "Item3 [97] 1 5" 120 0] lt
  have one: "item_instrs (mono_env 2) ''Helvetica'' JPY 120 (Item3 [97] 1 5) =
     [SetFont ''Helvetica'' 10, ShowPage, SetFont ''Helvetica'' 11,
      DrawString margin_x (height - margin_y - 12 * mm) items_label, SetFont ''Helvetica'' 10]
     @ draw_row (mono_env 2) ''Helvetica'' JPY (height - margin_y - 40 * mm) (Item3 [97] 1 5)"
    by blast
  from C2_page_break [of "mono_env 2" "''Helvetica''" JPY 0 "\<lparr> out = [], row_y = 0, subtotal_by_rate = [] \<rparr>" "[]"
      "Item3 [97] 1 5" 130 0] ge
  have two: "item_instrs (mono_env 2) ''Helvetica'' JPY 130 (Item3 [97] 1 5) =
       SetFont ''Helvetica'' 10 # draw_row (mono_env 2) ''Helvetica'' JPY 130 (Item3 [97] 1 5)"
    by blast
  from one two show ?thesis by blast
qed

subsection \<open>Properties of the tax aggregation\<close>














text \<open>The loop over the rates.\<close>

lemma rates_loop_total_sub:
  "total_sub (rates_loop cur d ts rs) = total_sub ts + (\<Sum>r \<leftarrow> rs. dict_get d r)"
  by (induction rs arbitrary: ts) (simp_all add: rate_step_def Let_def)

lemma rates_loop_total_tax:
  "total_tax (rates_loop cur d ts rs) = total_tax ts + (\<Sum>r \<leftarrow> rs. dict_get d r * r)"
  by (induction rs arbitrary: ts) (simp_all add: rate_step_def Let_def)

lemma rates_loop_row_y:
  "t_row_y (rates_loop cur d ts rs) = t_row_y ts - 28 * rat_of_nat (length rs)"
proof (induction rs arbitrary: ts)
  case Nil
  then show ?case by simp
next
  case (Cons r rs)
  have "t_row_y (rates_loop cur d ts (r # rs)) = t_row_y (rate_step cur d ts r) - 28 * rat_of_nat (length rs)"
    by (simp add: Cons.IH)
  also have "t_row_y (rate_step cur d ts r) = t_row_y ts - 28"
    by (simp add: rate_step_def Let_def)
  finally show ?case by (simp add: algebra_simps)
qed







subsection \<open>Properties of the totals and of the header\<close>

lemma move_down_rate_instrs:
  "map (move_down dy) (rate_instrs cur s r y) = rate_instrs cur s r (y - dy)"
  by (simp add: rate_instrs_def move_down_def algebra_simps)

lemma rate_instrs_no_showpage: "ShowPage \<notin> set (rate_instrs cur s r y)"
  by (simp add: rate_instrs_def)

lemma rates_loop_no_showpage:
  "ShowPage \<notin> set (t_out ts) \<Longrightarrow> ShowPage \<notin> set (t_out (rates_loop cur d ts rs))"
proof (induction rs arbitrary: ts)
  case Nil
  then show ?case by simp
next
  case (Cons r rs)
  have "ShowPage \<notin> set (t_out (rate_step cur d ts r))"
    using Cons.prems by (simp add: rate_step_def Let_def rate_instrs_no_showpage)
  from Cons.IH [OF this] show ?case by simp
qed

lemma rates_loop_move_down:
  "t_out ts' = map (move_down dy) (t_out ts) \<Longrightarrow> t_row_y ts' = t_row_y ts - dy \<Longrightarrow>
   t_out (rates_loop cur d ts' rs) = map (move_down dy) (t_out (rates_loop cur d ts rs))"
proof (induction rs arbitrary: ts ts')
  case Nil
  then show ?case by simp
next
  case (Cons r rs)
  have a: "t_out (rate_step cur d ts' r) = map (move_down dy) (t_out (rate_step cur d ts r))"
    using Cons.prems by (simp add: rate_step_def Let_def move_down_rate_instrs)
  have b: "t_row_y (rate_step cur d ts' r) = t_row_y (rate_step cur d ts r) - dy"
    using Cons.prems by (simp add: rate_step_def Let_def)
  from Cons.IH [OF a b] show ?case by simp
qed

lemma rates_loop_sums_start:
  "total_sub ts' = total_sub ts \<Longrightarrow> total_tax ts' = total_tax ts \<Longrightarrow>
   total_sub (rates_loop cur d ts' rs) = total_sub (rates_loop cur d ts rs)
   \<and> total_tax (rates_loop cur d ts' rs) = total_tax (rates_loop cur d ts rs)"
  by (simp add: rates_loop_total_sub rates_loop_total_tax)

lemma length_sorted_reverse: "length (sorted_reverse ks) = length ks"
  by (simp add: sorted_reverse_def)

lemma totals_no_showpage: "ShowPage \<notin> set (t_out (totals bf cur d y))"
proof -
  have "ShowPage \<notin> set (t_out (rates_loop cur d
          \<lparr> t_out = [Line margin_x (y - 6) (width - margin_x) (y - 6)], t_row_y = y - 6 - 18,
            total_sub = 0, total_tax = 0 \<rparr> (sorted_reverse (map fst d))))"
    by (rule rates_loop_no_showpage) simp
  then show ?thesis by (simp add: totals_def Let_def)
qed

lemma totals_row_y: "t_row_y (totals bf cur d y) = y - 56 - 28 * rat_of_nat (length d)"
  by (simp add: totals_def Let_def rates_loop_row_y length_sorted_reverse)

lemma totals_last:
  "last (t_out (totals bf cur d y)) =
     DrawRightString totals_x_val (t_row_y (totals bf cur d y))
       (money cur (total_sub (totals bf cur d y) + total_tax (totals bf cur d y)))"
  by (simp add: totals_def Let_def)

lemma totals_move_down:
  "t_out (totals bf cur d (y - dy)) = map (move_down dy) (t_out (totals bf cur d y))"
proof -
  define R where "R = rates_loop cur d
      \<lparr> t_out = [Line margin_x (y - 6) (width - margin_x) (y - 6)], t_row_y = y - 6 - 18,
        total_sub = 0, total_tax = 0 \<rparr> (sorted_reverse (map fst d))"
  define R' where "R' = rates_loop cur d
      \<lparr> t_out = [Line margin_x (y - dy - 6) (width - margin_x) (y - dy - 6)],
        t_row_y = y - dy - 6 - 18, total_sub = 0, total_tax = 0 \<rparr> (sorted_reverse (map fst d))"
  have o: "t_out R' = map (move_down dy) (t_out R)"
    unfolding R_def R'_def
    by (rule rates_loop_move_down) (simp_all add: move_down_def algebra_simps)
  have s: "total_sub R' = total_sub R" "total_tax R' = total_tax R"
    by (simp_all add: R_def R'_def rates_loop_total_sub rates_loop_total_tax)
  have y: "t_row_y R' = t_row_y R - dy"
    by (simp add: R_def R'_def rates_loop_row_y)
  have t: "t_out (totals bf cur d y) = t_out R @
      [Line margin_x (t_row_y R) (width - margin_x) (t_row_y R),
       DrawRightString totals_x_label (t_row_y R - 18) subtotal_label,
       DrawRightString totals_x_val (t_row_y R - 18) (money cur (total_sub R)),
       SetFont bf 12,
       DrawRightString totals_x_label (t_row_y R - 18 - 14) total_label,
       DrawRightString totals_x_val (t_row_y R - 18 - 14) (money cur (total_sub R + total_tax R))]"
    unfolding totals_def Let_def R_def by simp
  have t': "t_out (totals bf cur d (y - dy)) = t_out R' @
      [Line margin_x (t_row_y R') (width - margin_x) (t_row_y R'),
       DrawRightString totals_x_label (t_row_y R' - 18) subtotal_label,
       DrawRightString totals_x_val (t_row_y R' - 18) (money cur (total_sub R')),
       SetFont bf 12,
       DrawRightString totals_x_label (t_row_y R' - 18 - 14) total_label,
       DrawRightString totals_x_val (t_row_y R' - 18 - 14) (money cur (total_sub R' + total_tax R'))]"
    unfolding totals_def Let_def R'_def by simp
  show ?thesis
    unfolding t t' o s y by (simp add: move_down_def algebra_simps)
qed

text \<open>The header draws on one page.\<close>

lemma draw_wrapped_loop_no_showpage:
  "draw_wrapped_loop sw mw lh x s acc y line = (acc', y', line') \<Longrightarrow>
   ShowPage \<notin> set acc \<Longrightarrow> ShowPage \<notin> set acc'"
proof (induction s arbitrary: acc y line)
  case Nil
  then show ?case by simp
next
  case (Cons ch s)
  show ?case
  proof (cases "sw (line @ [ch]) \<le> mw")
    case True
    with Cons.prems(1) have "draw_wrapped_loop sw mw lh x s acc y (line @ [ch]) = (acc', y', line')"
      by simp
    from Cons.IH [OF this Cons.prems(2)] show ?thesis .
  next
    case False
    with Cons.prems(1)
    have run: "draw_wrapped_loop sw mw lh x s (acc @ [DrawString x y line]) (y - lh) [ch] = (acc', y', line')"
      by simp
    have "ShowPage \<notin> set (acc @ [DrawString x y line])" using Cons.prems(2) by simp
    from Cons.IH [OF run this] show ?thesis .
  qed
qed

lemma draw_wrapped_no_showpage: "ShowPage \<notin> set (fst (draw_wrapped e s x y f sz mw lh))"
proof -
  obtain acc' y' line' where run:
    "draw_wrapped_loop (\<lambda>t. stringWidth e t f sz) mw lh x s [SetFont f sz] y [] = (acc', y', line')"
    by (metis prod_cases3)
  have "ShowPage \<notin> set acc'"
    by (rule draw_wrapped_loop_no_showpage [OF run]) simp
  with run show ?thesis by (simp add: draw_wrapped_def)
qed

lemma draw_block_no_showpage:
  "ShowPage \<notin> set acc \<Longrightarrow> ShowPage \<notin> set (fst (draw_block e bf mw (acc, y) lines))"
proof (induction lines arbitrary: acc y)
  case Nil
  then show ?case by simp
next
  case (Cons line lines)
  show ?case
  proof (cases "line = []")
    case True
    with Cons show ?thesis by simp
  next
    case False
    obtain drawn y' where dw: "draw_wrapped e line margin_x y bf 10 mw 12 = (drawn, y')"
      by (cases "draw_wrapped e line margin_x y bf 10 mw 12") auto
    have "ShowPage \<notin> set drawn"
      using draw_wrapped_no_showpage [of e line margin_x y bf 10 mw 12] dw by simp
    with Cons.prems have "ShowPage \<notin> set (acc @ drawn)" by simp
    from Cons.IH [OF this] False dw show ?thesis by simp
  qed
qed

lemma invoice_no_block_no_showpage: "ShowPage \<notin> set (fst (invoice_no_block e bf s y))"
  by (simp add: invoice_no_block_def Let_def draw_lines_no_showpage)

lemma meta_loop_no_showpage:
  "ShowPage \<notin> set acc \<Longrightarrow> ShowPage \<notin> set (fst (meta_loop e bf (acc, y) fs))"
proof (induction fs arbitrary: acc y)
  case Nil
  then show ?case by simp
next
  case (Cons f fs)
  obtain label val where f: "f = (label, val)" by (cases f) auto
  let ?lines = "wrap_lines e val bf 10 meta_max_w"
  have "ShowPage \<notin> set (acc @ [DrawString meta_x y label]
          @ draw_lines (DrawString meta_x) 14 (y - 12) ?lines)"
    using Cons.prems by (simp add: draw_lines_no_showpage)
  from Cons.IH [OF this] show ?case by (simp add: f Let_def)
qed

lemma table_header_no_showpage: "ShowPage \<notin> set (table_header bf y)"
  by (simp add: table_header_def Let_def)

lemma header_no_showpage: "ShowPage \<notin> set (fst (header e data dr))"
proof -
  let ?bf = "base_font_of e"
  define sl where "sl = [get (data_seller_name data) [], get (data_seller_address data) [],
       get (data_seller_phone data) [], get (data_seller_email data) []]"
  define bl where "bl = [get (data_buyer_name data) [], get (data_buyer_address data) [],
       get (data_buyer_phone data) [], get (data_buyer_email data) []]"
  obtain si yl where s: "draw_block e ?bf (seller_max_w e ?bf) ([], y_top - 16) sl = (si, yl)"
    by (metis surj_pair)
  obtain ni yr1 where n: "invoice_no_block e ?bf (get (data_invoice_no data) []) (y_top - 16) = (ni, yr1)"
    by (metis surj_pair)
  obtain mi yr where m: "meta_loop e ?bf ([SetFont ?bf 10], yr1) (meta_fields data dr) = (mi, yr)"
    by (metis surj_pair)
  let ?lb = "if logo_exists e \<and> drawImage_ok e then logo_y else y_top"
  let ?y_bt0 = "min (min yl yr) ?lb - 10 * mm"
  obtain bi yb where b: "draw_block e ?bf (buyer_max_w e ?bf)
      ([SetFont ?bf 11, DrawString margin_x ?y_bt0 bill_to_label], ?y_bt0 - 16) bl = (bi, yb)"
    by (metis surj_pair)
  have "ShowPage \<notin> set (fst (draw_block e ?bf (seller_max_w e ?bf) ([], y_top - 16) sl))"
    by (rule draw_block_no_showpage) simp
  then have s': "ShowPage \<notin> set si" by (simp add: s)
  have "ShowPage \<notin> set (fst (invoice_no_block e ?bf (get (data_invoice_no data) []) (y_top - 16)))"
    by (rule invoice_no_block_no_showpage)
  then have n': "ShowPage \<notin> set ni" by (simp add: n)
  have "ShowPage \<notin> set (fst (meta_loop e ?bf ([SetFont ?bf 10], yr1) (meta_fields data dr)))"
    by (rule meta_loop_no_showpage) simp
  then have m': "ShowPage \<notin> set mi" by (simp add: m)
  have "ShowPage \<notin> set (fst (draw_block e ?bf (buyer_max_w e ?bf)
      ([SetFont ?bf 11, DrawString margin_x ?y_bt0 bill_to_label], ?y_bt0 - 16) bl))"
    by (rule draw_block_no_showpage) simp
  then have b': "ShowPage \<notin> set bi" by (simp add: b)
  show ?thesis
    unfolding header_def Let_def sl_def [symmetric] bl_def [symmetric]
    using s' n' m' b'
    by (simp add: s n m b table_header_no_showpage)
qed

subsection \<open>Properties of the render\<close>

lemma generate_invoice_pdf_Inr:
  "default_rate_of e data = Inr dr \<Longrightarrow>
   generate_invoice_pdf e data =
     Inr (fst (header e data dr)
          @ out (items_phase e data dr (snd (header e data dr)))
          @ t_out (totals_phase e data (items_phase e data dr (snd (header e data dr))))
          @ note_phase e data (totals_phase e data (items_phase e data dr (snd (header e data dr))))
          @ [ShowPage, Save])"
  by (simp add: generate_invoice_pdf_def Let_def split: prod.splits)

lemma generate_invoice_pdf_Inl:
  "default_rate_of e data = Inl err \<Longrightarrow> generate_invoice_pdf e data = Inl err"
  by (simp add: generate_invoice_pdf_def)

text \<open>
  C9. The totals hold no \<^verbatim>\<open>showPage\<close>, whatever the cursor and the number of rates: with
  the cursor lower by \<open>dy\<close> every instruction of the totals is the same instruction,
  \<open>dy\<close> lower; the last line, the total, is drawn 56 points and 28 points for each rate
  below the cursor. In a render that returns, the instructions are those of the header,
  the item rows, the totals and the note, then the closing \<^verbatim>\<open>showPage\<close> and
  \<^verbatim>\<open>save\<close>, and neither the header nor the totals hold a \<^verbatim>\<open>showPage\<close>.
\<close>

theorem C9_totals_no_page_break:
  "ShowPage \<notin> set (t_out (totals bf cur d y))
   \<and> t_out (totals bf cur d (y - dy)) = map (move_down dy) (t_out (totals bf cur d y))
   \<and> t_row_y (totals bf cur d y) = y - 56 - 28 * rat_of_nat (length d)
   \<and> last (t_out (totals bf cur d y)) =
       DrawRightString totals_x_val (y - 56 - 28 * rat_of_nat (length d))
         (money cur (total_sub (totals bf cur d y) + total_tax (totals bf cur d y)))
   \<and> (generate_invoice_pdf e data = Inr res \<longrightarrow>
        (\<exists>dr. default_rate_of e data = Inr dr
           \<and> (let hdr = header e data dr;
                   st = items_phase e data dr (snd hdr);
                   ts = totals_phase e data st
               in res = fst hdr @ out st @ t_out ts @ note_phase e data ts @ [ShowPage, Save]
                  \<and> ShowPage \<notin> set (fst hdr)
                  \<and> ShowPage \<notin> set (t_out ts))))"
proof -
  have a: "last (t_out (totals bf cur d y)) =
       DrawRightString totals_x_val (y - 56 - 28 * rat_of_nat (length d))
         (money cur (total_sub (totals bf cur d y) + total_tax (totals bf cur d y)))"
    using totals_last [of bf cur d y] by (simp add: totals_row_y)
  have b: "generate_invoice_pdf e data = Inr res \<longrightarrow>
        (\<exists>dr. default_rate_of e data = Inr dr
           \<and> (let hdr = header e data dr;
                   st = items_phase e data dr (snd hdr);
                   ts = totals_phase e data st
               in res = fst hdr @ out st @ t_out ts @ note_phase e data ts @ [ShowPage, Save]
                  \<and> ShowPage \<notin> set (fst hdr)
                  \<and> ShowPage \<notin> set (t_out ts)))"
  proof
    assume g: "generate_invoice_pdf e data = Inr res"
    show "\<exists>dr. default_rate_of e data = Inr dr
           \<and> (let hdr = header e data dr;
                   st = items_phase e data dr (snd hdr);
                   ts = totals_phase e data st
               in res = fst hdr @ out st @ t_out ts @ note_phase e data ts @ [ShowPage, Save]
                  \<and> ShowPage \<notin> set (fst hdr)
                  \<and> ShowPage \<notin> set (t_out ts))"
    proof (cases "default_rate_of e data")
      case (Inl err)
      from generate_invoice_pdf_Inl [OF this] g show ?thesis by simp
    next
      case (Inr dr)
      from generate_invoice_pdf_Inr [OF this] g
      show ?thesis
        by (auto simp: Inr Let_def header_no_showpage totals_phase_def totals_no_showpage)
    qed
  qed
  from totals_no_showpage totals_move_down totals_row_y a b show ?thesis by blast
qed

theorem C9_totals_no_page_break_witness:
  "ShowPage \<notin> set (t_out (totals ''Helvetica'' JPY [(1 / 10, 1000), (2 / 25, 500), (0, 200)] 120))
   \<and> t_row_y (totals ''Helvetica'' JPY [(1 / 10, 1000), (2 / 25, 500), (0, 200)] 120) = - 20
   \<and> - 20 < margin_y
   \<and> (\<exists>res. generate_invoice_pdf (mono_env 2) data3 = Inr res
         \<and> ShowPage \<notin> set (fst (header (mono_env 2) data3 (1 / 10))))"
proof -
  have dr: "default_rate_of (mono_env 2) data3 = Inr (1 / 10)"
    by (simp add: default_rate_of_def data3_def mono_env_def dec_float_def ascii_def is_digit_def
        digits_val_def)
  from generate_invoice_pdf_Inr [OF dr]
  obtain res where res: "generate_invoice_pdf (mono_env 2) data3 = Inr res" by blast
  note c9 = C9_totals_no_page_break [of "''Helvetica''" JPY "[(1 / 10, 1000), (2 / 25, 500), (0, 200)]" 120 0
      "mono_env 2" data3 res]
  from c9 have t1: "ShowPage \<notin> set (t_out (totals ''Helvetica'' JPY [(1 / 10, 1000), (2 / 25, 500), (0, 200)] 120))"
    by blast
  from c9 have "t_row_y (totals ''Helvetica'' JPY [(1 / 10, 1000), (2 / 25, 500), (0, 200)] 120) =
      120 - 56 - 28 * rat_of_nat (length [(1 / 10 :: rat, 1000 :: rat), (2 / 25, 500), (0, 200)])"
    by blast
  then have t2: "t_row_y (totals ''Helvetica'' JPY [(1 / 10, 1000), (2 / 25, 500), (0, 200)] 120) = - 20"
    by simp
  from c9 res obtain dr' where dr': "default_rate_of (mono_env 2) data3 = Inr dr'"
    and h: "ShowPage \<notin> set (fst (header (mono_env 2) data3 dr'))"
    unfolding Let_def by blast
  from dr dr' have "dr' = 1 / 10" by (simp only: sum.inject)
  with h have t3: "ShowPage \<notin> set (fst (header (mono_env 2) data3 (1 / 10)))" by simp
  have t4: "- 20 < margin_y" by (simp add: margin_y_def mm_def)
  from t1 t2 t3 t4 res show ?thesis by blast
qed






subsection \<open>Properties of the items cell\<close>

lemma map_filter_concat:
  "List.map_filter f xs = concat (map (\<lambda>p. case f p of None \<Rightarrow> [] | Some it \<Rightarrow> [it]) xs)"
  by (induction xs) (simp_all add: map_filter_simps split: option.splits)

text \<open>
  C10. Each part of the items cell gives no item or one item, in order. A part with
  fewer than three segments gives none. When the quantity or the unit price does not
  parse, the item has quantity 0 and unit price 0. When there is a fourth segment that
  is not empty and does not parse, the item has no rate of its own, and its rate is the
  default rate of the invoice.
\<close>

theorem C10_batch_items:
  "(raw \<noteq> [] \<longrightarrow>
      parse_items e (Some raw) =
        concat (map (\<lambda>p. case parse_part e p of None \<Rightarrow> [] | Some it \<Rightarrow> [it]) (split 59 raw)))
   \<and> (length (segs_of (strip part)) < 3 \<longrightarrow> parse_part e part = None)
   \<and> (strip part \<noteq> [] \<and> 3 \<le> length (segs_of (strip part))
        \<and> (py_float e (segs_of (strip part) ! 1) = None \<or> py_float e (segs_of (strip part) ! 2) = None)
      \<longrightarrow> parse_part e part =
            Some (Item4 (segs_of (strip part) ! 0) 0 0 (parse_taxv e (segs_of (strip part)))))
   \<and> (strip part \<noteq> [] \<and> 4 \<le> length (segs_of (strip part))
        \<and> segs_of (strip part) ! 3 \<noteq> [] \<and> py_float e (segs_of (strip part) ! 3) = None
      \<longrightarrow> (\<exists>qv uv. parse_part e part = Some (Item4 (segs_of (strip part) ! 0) qv uv TaxNone)
                   \<and> item_rate dr (Item4 (segs_of (strip part) ! 0) qv uv TaxNone) = dr))"
proof -
  have a: "raw \<noteq> [] \<longrightarrow>
      parse_items e (Some raw) =
        concat (map (\<lambda>p. case parse_part e p of None \<Rightarrow> [] | Some it \<Rightarrow> [it]) (split 59 raw))"
    by (simp add: parse_items_def map_filter_concat)
  have b: "length (segs_of (strip part)) < 3 \<longrightarrow> parse_part e part = None"
    by (simp add: parse_part_def Let_def)
  have c: "strip part \<noteq> [] \<and> 3 \<le> length (segs_of (strip part))
        \<and> (py_float e (segs_of (strip part) ! 1) = None \<or> py_float e (segs_of (strip part) ! 2) = None)
      \<longrightarrow> parse_part e part =
            Some (Item4 (segs_of (strip part) ! 0) 0 0 (parse_taxv e (segs_of (strip part))))"
    by (auto simp: parse_part_def Let_def parse_qty_unit_def split: option.splits)
  have d: "strip part \<noteq> [] \<and> 4 \<le> length (segs_of (strip part))
        \<and> segs_of (strip part) ! 3 \<noteq> [] \<and> py_float e (segs_of (strip part) ! 3) = None
      \<longrightarrow> (\<exists>qv uv. parse_part e part = Some (Item4 (segs_of (strip part) ! 0) qv uv TaxNone)
                   \<and> item_rate dr (Item4 (segs_of (strip part) ! 0) qv uv TaxNone) = dr)"
    by (auto simp: parse_part_def Let_def parse_taxv_def item_rate_def item_taxv_def
        split: prod.splits)
  from a b c d show ?thesis by blast
qed

lemma strip_ascii:
  "strip (ascii ''a|1|x'') = ascii ''a|1|x''"
  "strip (ascii '' b|2'') = ascii ''b|2''"
  "strip (ascii '' c|3|4|zz'') = ascii ''c|3|4|zz''"
  by (simp_all add: strip_def ascii_def isspace_def)

lemma segs_ascii:
  "segs_of (ascii ''a|1|x'') = [ascii ''a'', ascii ''1'', ascii ''x'']"
  "segs_of (ascii ''b|2'') = [ascii ''b'', ascii ''2'']"
  "segs_of (ascii ''c|3|4|zz'') = [ascii ''c'', ascii ''3'', ascii ''4'', ascii ''zz'']"
  by (simp_all add: segs_of_def strip_def ascii_def isspace_def)

lemma floats_ascii:
  "py_float (mono_env 2) (ascii ''x'') = None"
  "py_float (mono_env 2) (ascii ''zz'') = None"
  "py_float (mono_env 2) (ascii ''1'') = Some 1"
  "py_float (mono_env 2) (ascii ''3'') = Some 3"
  "py_float (mono_env 2) (ascii ''4'') = Some 4"
  by (simp_all add: mono_env_def dec_float_def ascii_def is_digit_def digits_val_def)

theorem C10_batch_items_witness:
  "parse_items (mono_env 2) (Some (ascii ''a|1|x; b|2; c|3|4|zz'')) =
     [Item4 (ascii ''a'') 0 0 TaxNone, Item4 (ascii ''c'') 3 4 TaxNone]
   \<and> parse_part (mono_env 2) (ascii '' b|2'') = None
   \<and> parse_part (mono_env 2) (ascii ''a|1|x'') = Some (Item4 (ascii ''a'') 0 0 TaxNone)
   \<and> item_rate (1 / 10) (Item4 (ascii ''c'') 3 4 TaxNone) = 1 / 10"
proof -
  have nz: "ascii ''a|1|x'' \<noteq> []" "ascii ''c|3|4|zz'' \<noteq> []" "ascii ''a|1|x; b|2; c|3|4|zz'' \<noteq> []"
    "ascii ''zz'' \<noteq> []"
    by (simp_all add: ascii_def)
  have parts: "split 59 (ascii ''a|1|x; b|2; c|3|4|zz'') =
      [ascii ''a|1|x'', ascii '' b|2'', ascii '' c|3|4|zz'']"
    by (simp add: ascii_def)
  have p1: "parse_part (mono_env 2) (ascii ''a|1|x'') = Some (Item4 (ascii ''a'') 0 0 TaxNone)"
    using C10_batch_items [of "[]" "mono_env 2" "ascii ''a|1|x''" 0] nz
    by (simp add: strip_ascii segs_ascii floats_ascii parse_taxv_def)
  have p2: "parse_part (mono_env 2) (ascii '' b|2'') = None"
    using C10_batch_items [of "[]" "mono_env 2" "ascii '' b|2''" 0]
    by (simp add: strip_ascii segs_ascii)
  have p3: "parse_part (mono_env 2) (ascii '' c|3|4|zz'') = Some (Item4 (ascii ''c'') 3 4 TaxNone)"
    by (simp add: parse_part_def strip_ascii segs_ascii floats_ascii parse_taxv_def
        parse_qty_unit_def nz)
  have r: "item_rate (1 / 10) (Item4 (ascii ''c'') 3 4 TaxNone) = 1 / 10"
    using C10_batch_items [of "[]" "mono_env 2" "ascii '' c|3|4|zz''" "1 / 10"] nz p3
    by (simp add: strip_ascii segs_ascii floats_ascii)
  have all: "parse_items (mono_env 2) (Some (ascii ''a|1|x; b|2; c|3|4|zz'')) =
     [Item4 (ascii ''a'') 0 0 TaxNone, Item4 (ascii ''c'') 3 4 TaxNone]"
    using C10_batch_items [of "ascii ''a|1|x; b|2; c|3|4|zz''" "mono_env 2" "[]" 0] nz
    by (simp add: parts p1 p2 p3)
  from all p1 p2 r show ?thesis by blast
qed

subsection \<open>Properties of the money format\<close>

lemma digits_val_snoc: "digits_val (ds @ [c]) = 10 * digits_val ds + (c - 48)"
  by (simp add: digits_val_def)

lemma str_nat_digits:
  "str_nat n \<noteq> [] \<and> list_all is_digit (str_nat n) \<and> digits_val (str_nat n) = n"
proof (induction n rule: str_nat.induct)
  case (1 n)
  show ?case
  proof (cases "n < 10")
    case True
    then show ?thesis
      by (subst (1 2 3) str_nat.simps) (simp add: is_digit_def digits_val_def)
  next
    case False
    with 1 have ih: "str_nat (n div 10) \<noteq> []" "list_all is_digit (str_nat (n div 10))"
      "digits_val (str_nat (n div 10)) = n div 10"
      by simp_all
    have "n mod 10 \<le> 9" by arith
    then have m: "is_digit (48 + n mod 10)" by (simp add: is_digit_def)
    have s: "str_nat n = str_nat (n div 10) @ [48 + n mod 10]"
      using False by (subst str_nat.simps) simp
    show ?thesis
      unfolding s using ih m by (simp add: digits_val_snoc)
  qed
qed

lemma split_nonempty: "split sep s \<noteq> []"
  by (induction s) (auto split: list.splits)

lemma split_no_sep: "sep \<notin> set s \<Longrightarrow> split sep s = [s]"
  by (induction s) auto

lemma split_append_sep: "split sep (a @ sep # b) = split sep a @ split sep b"
proof (induction a)
  case Nil
  then show ?case by simp
next
  case (Cons c a)
  obtain x xs where x: "split sep a = x # xs"
    using split_nonempty [of sep a] by (cases "split sep a") auto
  show ?case by (simp add: Cons.IH x)
qed

lemma digits_no_comma: "list_all is_digit ds \<Longrightarrow> 44 \<notin> set ds"
  by (auto simp: list_all_iff is_digit_def)

lemma group3_split:
  "ds \<noteq> [] \<Longrightarrow> list_all is_digit ds \<Longrightarrow>
     (\<exists>g gs. split 44 (group3 ds) = g # gs \<and> g \<noteq> [] \<and> length g \<le> 3 \<and> list_all is_digit g
              \<and> list_all (\<lambda>h. length h = 3 \<and> list_all is_digit h) gs)
     \<and> ungroup (group3 ds) = ds
     \<and> set (group3 ds) \<subseteq> insert 44 (set ds)"
proof (induction ds rule: group3.induct)
  case (1 ds)
  show ?case
  proof (cases "length ds \<le> 3")
    case True
    then have g: "group3 ds = ds" by (subst group3.simps) simp
    have nc: "44 \<notin> set ds" using "1.prems"(2) by (rule digits_no_comma)
    then have u: "filter (\<lambda>c. c \<noteq> 44) ds = ds" by (auto simp: filter_id_conv)
    show ?thesis
      unfolding g using True "1.prems" nc u by (auto simp: split_no_sep ungroup_def)
  next
    case False
    let ?a = "take (length ds - 3) ds"
    let ?b = "drop (length ds - 3) ds"
    have g: "group3 ds = group3 ?a @ 44 # ?b"
      using False by (subst group3.simps) simp
    have a: "?a \<noteq> []" "list_all is_digit ?a"
      using False "1.prems"(2) by (auto simp: list_all_iff dest: in_set_takeD)
    have b: "length ?b = 3" "list_all is_digit ?b"
      using False "1.prems"(2) by (auto simp: list_all_iff dest: in_set_dropD)
    from "1.IH" [OF False a] obtain g' gs where
      ih: "split 44 (group3 ?a) = g' # gs" "g' \<noteq> []" "length g' \<le> 3" "list_all is_digit g'"
        "list_all (\<lambda>h. length h = 3 \<and> list_all is_digit h) gs"
      and iu: "ungroup (group3 ?a) = ?a"
      and iset: "set (group3 ?a) \<subseteq> insert 44 (set ?a)"
      by blast
    have nb: "44 \<notin> set ?b" using b(2) by (rule digits_no_comma)
    have sp: "split 44 (group3 ds) = g' # (gs @ [?b])"
      unfolding g by (simp add: split_append_sep ih(1) split_no_sep [OF nb])
    have ub: "filter (\<lambda>c. c \<noteq> 44) ?b = ?b" using nb by (auto simp: filter_id_conv)
    have un: "ungroup (group3 ds) = ds"
      unfolding g using iu ub by (simp add: ungroup_def)
    have st: "set (group3 ds) \<subseteq> insert 44 (set ds)"
      unfolding g using iset by (auto dest: in_set_takeD in_set_dropD)
    from sp ih b un st show ?thesis by simp
  qed
qed

lemma grouped_group3:
  "ds \<noteq> [] \<Longrightarrow> list_all is_digit ds \<Longrightarrow> grouped (group3 ds)"
  using group3_split [of ds] by (auto simp: grouped_def)

lemma round_half_even_near: "\<bar>rat_of_int (round_half_even q) - q\<bar> \<le> 1 / 2"
proof -
  have "rat_of_int \<lfloor>q\<rfloor> \<le> q" "q < rat_of_int \<lfloor>q\<rfloor> + 1" by linarith+
  then show ?thesis by (auto simp: round_half_even_def Let_def)
qed

lemma round_half_even_tie:
  "q - rat_of_int \<lfloor>q\<rfloor> = 1 / 2 \<Longrightarrow> even (round_half_even q)"
  by (simp add: round_half_even_def Let_def)

lemma round_half_even_nonneg: "0 \<le> q \<Longrightarrow> 0 \<le> round_half_even q"
proof -
  assume "0 \<le> q"
  then have "0 \<le> \<lfloor>q\<rfloor>" by simp
  then show ?thesis by (auto simp: round_half_even_def Let_def)
qed

lemma pad2:
  "m < 100 \<Longrightarrow> replicate (2 - length (str_nat m)) 48 @ str_nat m = [48 + m div 10, 48 + m mod 10]"
proof (cases "m < 10")
  case True
  then show ?thesis by (subst (1 2) str_nat.simps) simp
next
  case False
  assume "m < 100"
  then have d: "m div 10 < 10" by simp
  have "str_nat m = str_nat (m div 10) @ [48 + m mod 10]"
    using False by (subst str_nat.simps) simp
  also have "str_nat (m div 10) = [48 + m div 10]"
    using d by (subst str_nat.simps) simp
  finally show ?thesis by simp
qed

lemma money_JPY: "money JPY v = yen # fmt_f True 0 v"
  by (simp add: money_def)

lemma money_other: "c \<noteq> JPY \<Longrightarrow> money c v = fmt_f True 2 v"
  by (simp add: money_def)

lemma fmt_f_0:
  "fmt_f True 0 v = (if v < 0 then [45] else []) @ group3 (str_nat (nat (round_half_even \<bar>v\<bar>)))"
  by (simp add: fmt_f_def)

lemma fmt_f_2:
  "fmt_f True 2 v =
     (if v < 0 then [45] else [])
     @ group3 (str_nat (nat (round_half_even (\<bar>v\<bar> * 100)) div 100))
     @ [46, 48 + nat (round_half_even (\<bar>v\<bar> * 100)) mod 100 div 10,
        48 + nat (round_half_even (\<bar>v\<bar> * 100)) mod 100 mod 10]"
proof -
  have "nat (round_half_even (\<bar>v\<bar> * 100)) mod 100 < 100" by simp
  from pad2 [OF this] show ?thesis by (simp add: fmt_f_def Let_def)
qed

lemma two_digits:
  fixes n :: nat
  shows "n mod 100 div 10 \<le> 9" and "n mod 100 mod 10 \<le> 9"
    and "100 * (n div 100) + 10 * (n mod 100 div 10) + n mod 100 mod 10 = n"
  by arith+

lemma floor_rat_numeral:
  "\<lfloor>numeral a / numeral b :: rat\<rfloor> = numeral a div numeral b"
  using floor_divide_of_int_eq [of "numeral a" "numeral b", where ?'a = rat] by simp

lemma money_examples:
  "money (ascii ''USD'') (2469 / 2) = ascii ''1,234.50''"
  "money JPY (2469 / 2) = yen # ascii ''1,234''"
  by (simp_all add: money_def fmt_f_def round_half_even_def Let_def floor_rat_numeral
      str_nat.simps group3.simps ascii_def JPY_def)

text \<open>
  C6. Under \<^verbatim>\<open>JPY\<close> an amount is the yen sign, the minus sign of a negative amount, and
  the grouped digits of the amount rounded to an integer, with no point. Under any other
  currency code it is the minus sign of a negative amount, the grouped integer digits, a
  point and two digits, which together are the amount times 100 rounded to an integer,
  with no yen sign. The rounding is to the nearest integer, a tie to the even one.
  1234.5 gives \<^verbatim>\<open>1,234.50\<close> under \<^verbatim>\<open>USD\<close> and the yen sign with \<^verbatim>\<open>1,234\<close> under \<^verbatim>\<open>JPY\<close>.
\<close>

theorem C6_money:
  "(\<exists>body. money JPY v = yen # (if v < 0 then [45] else []) @ body
        \<and> grouped body \<and> int (digits_val (ungroup body)) = round_half_even \<bar>v\<bar>)
   \<and> 46 \<notin> set (money JPY v)
   \<and> (c \<noteq> JPY \<longrightarrow>
        (\<exists>body d1 d2. money c v = (if v < 0 then [45] else []) @ body @ [46, d1, d2]
           \<and> grouped body \<and> is_digit d1 \<and> is_digit d2 \<and> 46 \<notin> set body
           \<and> int (digits_val (ungroup body @ [d1, d2])) = round_half_even (\<bar>v\<bar> * 100))
        \<and> yen \<notin> set (money c v))
   \<and> \<bar>rat_of_int (round_half_even q) - q\<bar> \<le> 1 / 2
   \<and> (q - rat_of_int \<lfloor>q\<rfloor> = 1 / 2 \<longrightarrow> even (round_half_even q))
   \<and> money (ascii ''USD'') (2469 / 2) = ascii ''1,234.50''
   \<and> money JPY (2469 / 2) = yen # ascii ''1,234''"
proof -
  have digit_set: "\<And>n x. x \<in> set (group3 (str_nat n)) \<Longrightarrow> x = 44 \<or> is_digit x"
  proof -
    fix n x
    assume "x \<in> set (group3 (str_nat n))"
    moreover have "set (group3 (str_nat n)) \<subseteq> insert 44 (set (str_nat n))"
      using group3_split [of "str_nat n"] str_nat_digits [of n] by blast
    ultimately have "x = 44 \<or> x \<in> set (str_nat n)" by auto
    then show "x = 44 \<or> is_digit x"
      using str_nat_digits [of n] by (auto simp: list_all_iff)
  qed
  have no46: "\<And>n. 46 \<notin> set (group3 (str_nat n))"
    using digit_set by (fastforce simp: is_digit_def)
  have no165: "\<And>n. 165 \<notin> set (group3 (str_nat n))"
    using digit_set by (fastforce simp: is_digit_def)
  have grp: "\<And>n. grouped (group3 (str_nat n))"
    using str_nat_digits by (simp add: grouped_group3)
  have ung: "\<And>n. ungroup (group3 (str_nat n)) = str_nat n"
    using group3_split str_nat_digits by blast
  \<comment> \<open>the zero-digit currency\<close>
  let ?n0 = "nat (round_half_even \<bar>v\<bar>)"
  have n0: "int ?n0 = round_half_even \<bar>v\<bar>"
    using round_half_even_nonneg [of "\<bar>v\<bar>"] by simp
  have j: "money JPY v = yen # (if v < 0 then [45] else []) @ group3 (str_nat ?n0)"
    by (simp add: money_JPY fmt_f_0)
  have "int (digits_val (ungroup (group3 (str_nat ?n0)))) = round_half_even \<bar>v\<bar>"
    using str_nat_digits [of ?n0] n0 by (simp add: ung)
  with j grp have a: "\<exists>body. money JPY v = yen # (if v < 0 then [45] else []) @ body
        \<and> grouped body \<and> int (digits_val (ungroup body)) = round_half_even \<bar>v\<bar>"
    by blast
  have b: "46 \<notin> set (money JPY v)"
    unfolding j using no46 by (simp add: yen_def)
  \<comment> \<open>the two-digit currencies\<close>
  let ?n2 = "nat (round_half_even (\<bar>v\<bar> * 100))"
  let ?d1 = "48 + ?n2 mod 100 div 10"
  let ?d2 = "48 + ?n2 mod 100 mod 10"
  have n2: "int ?n2 = round_half_even (\<bar>v\<bar> * 100)"
    using round_half_even_nonneg [of "\<bar>v\<bar> * 100"] by simp
  have "?n2 mod 100 div 10 \<le> 9" "?n2 mod 100 mod 10 \<le> 9" by (rule two_digits)+
  then have dg: "is_digit ?d1" "is_digit ?d2" by (simp_all add: is_digit_def)
  have "digits_val (str_nat (?n2 div 100) @ [?d1, ?d2]) =
          100 * (?n2 div 100) + 10 * (?n2 mod 100 div 10) + ?n2 mod 100 mod 10"
    using str_nat_digits [of "?n2 div 100"] by (simp add: digits_val_def)
  also have "\<dots> = ?n2" by (rule two_digits)
  finally have val: "int (digits_val (ungroup (group3 (str_nat (?n2 div 100))) @ [?d1, ?d2])) =
      round_half_even (\<bar>v\<bar> * 100)"
    using n2 by (simp add: ung)
  have c: "c \<noteq> JPY \<longrightarrow>
        (\<exists>body d1 d2. money c v = (if v < 0 then [45] else []) @ body @ [46, d1, d2]
           \<and> grouped body \<and> is_digit d1 \<and> is_digit d2 \<and> 46 \<notin> set body
           \<and> int (digits_val (ungroup body @ [d1, d2])) = round_half_even (\<bar>v\<bar> * 100))
        \<and> yen \<notin> set (money c v)"
  proof
    assume ne: "c \<noteq> JPY"
    have m: "money c v = (if v < 0 then [45] else []) @ group3 (str_nat (?n2 div 100)) @ [46, ?d1, ?d2]"
      using ne by (simp add: money_other fmt_f_2)
    from m grp dg no46 val
    have ex: "\<exists>body d1 d2. money c v = (if v < 0 then [45] else []) @ body @ [46, d1, d2]
           \<and> grouped body \<and> is_digit d1 \<and> is_digit d2 \<and> 46 \<notin> set body
           \<and> int (digits_val (ungroup body @ [d1, d2])) = round_half_even (\<bar>v\<bar> * 100)"
      by blast
    have "165 \<noteq> ?d1" "165 \<noteq> ?d2" using dg by (auto simp: is_digit_def)
    then have "yen \<notin> set (money c v)"
      unfolding m using no165 by (simp add: yen_def)
    with ex show "(\<exists>body d1 d2. money c v = (if v < 0 then [45] else []) @ body @ [46, d1, d2]
           \<and> grouped body \<and> is_digit d1 \<and> is_digit d2 \<and> 46 \<notin> set body
           \<and> int (digits_val (ungroup body @ [d1, d2])) = round_half_even (\<bar>v\<bar> * 100))
        \<and> yen \<notin> set (money c v)"
      by blast
  qed
  have t: "q - rat_of_int \<lfloor>q\<rfloor> = 1 / 2 \<longrightarrow> even (round_half_even q)"
    using round_half_even_tie by blast
  from a b c round_half_even_near [of q] t money_examples show ?thesis by blast
qed

theorem C6_money_witness:
  "ascii ''EUR'' \<noteq> JPY
   \<and> yen \<notin> set (money (ascii ''EUR'') (- 1234567891 / 1000))
   \<and> (5 / 2 :: rat) - rat_of_int \<lfloor>5 / 2 :: rat\<rfloor> = 1 / 2
   \<and> even (round_half_even (5 / 2))"
proof -
  have ne: "ascii ''EUR'' \<noteq> JPY" by (simp add: ascii_def JPY_def)
  have tie: "(5 / 2 :: rat) - rat_of_int \<lfloor>5 / 2 :: rat\<rfloor> = 1 / 2"
    by (simp add: floor_rat_numeral)
  from C6_money [of "- 1234567891 / 1000" "ascii ''EUR''" "5 / 2"] ne tie
  show ?thesis by blast
qed




end
